theory Spec2Isabelle
  imports Main "HOL-Library.Word" "HOL-Library.Sublist"
begin

section \<open>JavaScript strings\<close>

text \<open>
  A JavaScript string is a sequence of UTF-16 code units. A regular expression without
  the \<^verbatim>\<open>u\<close> flag, \<^verbatim>\<open>includes\<close> and \<^verbatim>\<open>trim\<close> all work on code units.
  String literals of the source that are plain ASCII are written with \<open>lit\<close>; the
  Kannada literals are written out as their code units.
\<close>

type_synonym jsstring = "16 word list"

definition lit :: "string \<Rightarrow> jsstring" where
  "lit cs = map (\<lambda>c. of_nat (of_char c)) cs"

text \<open>\<^verbatim>\<open>!text\<close> on a string: only the empty string is falsy.\<close>

definition truthy :: "jsstring \<Rightarrow> bool" where
  "truthy t = (t \<noteq> [])"

text \<open>
  \<^verbatim>\<open>/[a-b...]/.test(text)\<close> for a regular expression that is one character class
  made of ranges, without flags (so no \<^verbatim>\<open>lastIndex\<close> state): some code unit of the
  text lies in one of the ranges.
\<close>

definition regex_test :: "(16 word \<times> 16 word) list \<Rightarrow> jsstring \<Rightarrow> bool" where
  "regex_test cls text = list_ex (\<lambda>c. list_ex (\<lambda>(lo, hi). lo \<le> c \<and> c \<le> hi) cls) text"

text \<open>\<^verbatim>\<open>hay.includes(needle)\<close>: the needle occurs as a contiguous run of code units.\<close>

fun str_includes :: "jsstring \<Rightarrow> jsstring \<Rightarrow> bool" where
  "str_includes [] needle = (needle = [])"
| "str_includes (c # cs) needle =
     (take (length needle) (c # cs) = needle \<or> str_includes cs needle)"

text \<open>\<^verbatim>\<open>String.prototype.trim\<close> strips ECMAScript white space and line terminators.\<close>

definition is_space :: "16 word \<Rightarrow> bool" where
  "is_space c = (c \<in> set [0x0009, 0x000A, 0x000B, 0x000C, 0x000D, 0x0020, 0x00A0, 0x1680,
                           0x2028, 0x2029, 0x202F, 0x205F, 0x3000, 0xFEFF]
                 \<or> (0x2000 \<le> c \<and> c \<le> 0x200A))"

definition trim :: "jsstring \<Rightarrow> jsstring" where
  "trim t = rev (dropWhile is_space (rev (dropWhile is_space t)))"

text \<open>
  The code points of a string, as \<^verbatim>\<open>String.prototype.codePointAt\<close> reads them: a high
  surrogate followed by a low surrogate is one supplementary code point, every other code
  unit is the code point of the same value.
\<close>

fun codePoints :: "jsstring \<Rightarrow> nat list" where
  "codePoints [] = []"
| "codePoints [c] = [unat c]"
| "codePoints (h # l # cs) =
     (if 0xD800 \<le> h \<and> h \<le> 0xDBFF \<and> 0xDC00 \<le> l \<and> l \<le> 0xDFFF
      then (0x10000 + (unat h - 0xD800) * 0x400 + (unat l - 0xDC00)) # codePoints cs
      else unat h # codePoints (l # cs))"


section \<open>va.js: language detection and settings\<close>

definition KANNADA_REGEX :: "(16 word \<times> 16 word) list" where
  "KANNADA_REGEX = [(0x0C80, 0x0CFF)]"

text \<open>
  \<^verbatim>\<open>detectLangFromText(text)\<close>. The argument is \<open>None\<close> when the caller passes
  \<^verbatim>\<open>undefined\<close> or \<^verbatim>\<open>null\<close>.
\<close>

definition detectLangFromText :: "jsstring option \<Rightarrow> jsstring" where
  "detectLangFromText text =
     (case text of
        None \<Rightarrow> lit ''en''
      | Some t \<Rightarrow>
          if \<not> truthy t then lit ''en''
          else if regex_test KANNADA_REGEX t then lit ''kn'' else lit ''en'')"


section \<open>va.js: the widget's state and the platform it runs on\<close>

datatype role = User | Bot

text \<open>
  A \<^verbatim>\<open>SpeechRecognition\<close> object: its \<^verbatim>\<open>lang\<close>, which of its four handler
  properties hold a function (the handlers of the source close over globals only, so all
  objects share them), and where the platform is in the object's life cycle:
  \<^verbatim>\<open>start()\<close> is accepted only on an idle object and throws InvalidStateError
  otherwise; \<^verbatim>\<open>stop()\<close> asks the service to stop capturing and to return a result from
  the audio it already has; the \<^verbatim>\<open>end\<close> event makes the object idle again.
\<close>

datatype rstatus = Idle | Starting | Running | Stopping

record session =
  slang :: jsstring
  onstart_set :: bool
  onresult_set :: bool
  onerror_set :: bool
  onend_set :: bool
  status :: rstatus

record voice =
  v_name :: jsstring
  v_lang :: jsstring

text \<open>An utterance; \<^verbatim>\<open>rate = 1\<close> and \<^verbatim>\<open>pitch = 1.05\<close> are constants and left out.\<close>

record utterance =
  u_text :: jsstring
  u_lang :: jsstring
  u_voice :: "voice option"

text \<open>
  \<^verbatim>\<open>window.speechSynthesis\<close>: the voices \<^verbatim>\<open>getVoices()\<close> returns, the utterance
  being spoken (\<^verbatim>\<open>speaking\<close>) and the queue of those waiting (\<^verbatim>\<open>pending\<close>).
\<close>

record synth =
  voices :: "voice list"
  current :: "utterance option"
  pending :: "utterance list"

record request =
  rq_message :: jsstring
  rq_language :: jsstring

text \<open>
  A \<^verbatim>\<open>fetch\<close> issued by \<^verbatim>\<open>sendMessageToAPI\<close>: the body posted, the arguments of the
  suspended call (what runs after the \<^verbatim>\<open>await\<close> depends on them) and whether the
  promise has settled.
\<close>

record fetch =
  f_request :: request
  f_text :: jsstring
  f_lang :: jsstring
  f_triedRetry :: bool
  f_settled :: bool

text \<open>
  The globals of va.js (\<open>recognition\<close> is an index into \<open>sessions\<close>, the objects
  created so far), the part of the page and of the browser they act on, and what the
  platform provides: whether \<^verbatim>\<open>localStorage.setItem\<close> throws, whether a
  \<^verbatim>\<open>SpeechRecognition\<close> constructor exists, and \<^verbatim>\<open>String.prototype.toLowerCase\<close>
  (a Unicode table of the platform, taken as given). \<open>area\<close> is the list of bubbles in
  \<^verbatim>\<open>#voice-chat-messages\<close>, \<open>None\<close> while the element does not exist. \<open>timers\<close>
  holds the delay of every pending \<^verbatim>\<open>setTimeout(() => startListening(), d)\<close>.
  Styling (the mic's scale and colour, the badge text, the box's display) is not modelled.
\<close>

record state =
  currentLang :: "jsstring option"
  storedLang :: "jsstring option"
  storageFails :: bool
  srSupported :: bool
  toLowerCase :: "jsstring \<Rightarrow> jsstring"
  sessions :: "session list"
  recognition :: "nat option"
  isListening :: bool
  isBotSpeaking :: bool
  wasListeningBeforeSpeak :: bool
  chatHistory :: "jsstring list"
  area :: "(role \<times> jsstring) list option"
  speechSynthesis :: "synth option"
  timers :: "nat list"
  fetches :: "fetch list"
  alerts :: "jsstring list"

text \<open>
  A call either returns or throws; what it did to the state before throwing stays done.
\<close>

datatype exn = TypeError | InvalidStateError | QuotaExceededError | NetworkError | SyntaxError

datatype outcome = Normal state | Thrown exn state

definition andThen :: "outcome \<Rightarrow> (state \<Rightarrow> outcome) \<Rightarrow> outcome" where
  "andThen m f = (case m of Normal s \<Rightarrow> f s | Thrown e s \<Rightarrow> Thrown e s)"

definition try_catch :: "outcome \<Rightarrow> (exn \<Rightarrow> state \<Rightarrow> outcome) \<Rightarrow> outcome" where
  "try_catch m h = (case m of Normal s \<Rightarrow> Normal s | Thrown e s \<Rightarrow> h e s)"

text \<open>An exception that leaves an event handler is reported on the console and dropped.\<close>

fun settle :: "outcome \<Rightarrow> state" where
  "settle (Normal s) = s"
| "settle (Thrown e s) = s"

definition upd_session :: "nat \<Rightarrow> (session \<Rightarrow> session) \<Rightarrow> state \<Rightarrow> state" where
  "upd_session i f s = s\<lparr>sessions := (sessions s)[i := f (sessions s ! i)]\<rparr>"

definition session_start :: "nat \<Rightarrow> state \<Rightarrow> outcome" where
  "session_start i s =
     (if i < length (sessions s) \<and> status (sessions s ! i) = Idle
      then Normal (upd_session i (\<lambda>r. r\<lparr>status := Starting\<rparr>) s)
      else Thrown InvalidStateError s)"

definition session_stop :: "nat \<Rightarrow> state \<Rightarrow> outcome" where
  "session_stop i s =
     Normal (upd_session i
       (\<lambda>r. if status r = Starting \<or> status r = Running then r\<lparr>status := Stopping\<rparr> else r) s)"

text \<open>A method call on the global \<^verbatim>\<open>recognition\<close>: a TypeError when it is null.\<close>

definition on_recognition :: "(nat \<Rightarrow> state \<Rightarrow> outcome) \<Rightarrow> state \<Rightarrow> outcome" where
  "on_recognition m s =
     (case recognition s of None \<Rightarrow> Thrown TypeError s | Some i \<Rightarrow> m i s)"

definition localStorage_setItem :: "jsstring \<Rightarrow> state \<Rightarrow> outcome" where
  "localStorage_setItem v s =
     (if storageFails s then Thrown QuotaExceededError s else Normal (s\<lparr>storedLang := Some v\<rparr>))"

definition getCurrentLang :: "state \<Rightarrow> jsstring" where
  "getCurrentLang s =
     (case currentLang s of
        Some l \<Rightarrow> if truthy l then l
                  else (case storedLang s of
                          Some m \<Rightarrow> if truthy m then m else lit ''en''
                        | None \<Rightarrow> lit ''en'')
      | None \<Rightarrow> (case storedLang s of
                   Some m \<Rightarrow> if truthy m then m else lit ''en''
                 | None \<Rightarrow> lit ''en''))"

definition saveLang :: "jsstring \<Rightarrow> state \<Rightarrow> outcome" where
  "saveLang lang s =
     (if \<not> truthy lang then Normal s
      else try_catch (localStorage_setItem lang (s\<lparr>currentLang := Some lang\<rparr>))
                     (\<lambda>e s'. Normal s'))"


section \<open>va.js: messaging\<close>

definition addMessage :: "role \<Rightarrow> jsstring \<Rightarrow> state \<Rightarrow> outcome" where
  "addMessage r text s =
     (case area s of
        None \<Rightarrow> Normal s
      | Some ms \<Rightarrow> Normal (s\<lparr>area := Some (ms @ [(r, text)])\<rparr>))"

definition clearChat :: "state \<Rightarrow> outcome" where
  "clearChat s =
     Normal (s\<lparr>chatHistory := [],
               area := (case area s of None \<Rightarrow> None | Some ms \<Rightarrow> Some [])\<rparr>)"


section \<open>va.js: speech recognition\<close>

definition recreateRecognition :: "state \<Rightarrow> outcome" where
  "recreateRecognition s =
     (case recognition s of
        None \<Rightarrow> Normal s
      | Some i \<Rightarrow>
          andThen
            (try_catch
               (session_stop i
                  (upd_session i (\<lambda>r. r\<lparr>onerror_set := False\<rparr>)
                     (upd_session i (\<lambda>r. r\<lparr>onend_set := False\<rparr>) s)))
               (\<lambda>e s'. Normal s'))
            (\<lambda>s'. Normal (s'\<lparr>recognition := None\<rparr>)))"

definition msg_no_recognition :: jsstring where
  "msg_no_recognition =
     [0x0CA8, 0x0CBF, 0x0CAE, 0x0CCD, 0x0CAE, 0x0020, 0x0CAC, 0x0CCD, 0x0CB0, 0x0CCC, 0x0CB8,
      0x0CB0, 0x0CCD, 0x200C, 0x0C97, 0x0CC6, 0x0020, 0x0053, 0x0070, 0x0065, 0x0065, 0x0063,
      0x0068, 0x0020, 0x0052, 0x0065, 0x0063, 0x006F, 0x0067, 0x006E, 0x0069, 0x0074, 0x0069,
      0x006F, 0x006E, 0x0020, 0x0CAC, 0x0CC6, 0x0C82, 0x0CAC, 0x0CB2, 0x0020, 0x0C87, 0x0CB2,
      0x0CCD, 0x0CB2, 0x002E]"

text \<open>
  \<^verbatim>\<open>initRecognition()\<close>; \<^verbatim>\<open>interimResults\<close> and \<^verbatim>\<open>continuous\<close> are set to false
  on every object and left out.
\<close>

definition initRecognition :: "state \<Rightarrow> outcome" where
  "initRecognition s =
     (if \<not> srSupported s then Normal (s\<lparr>alerts := alerts s @ [msg_no_recognition]\<rparr>)
      else Normal (s\<lparr>sessions := sessions s @
                        [\<lparr>slang = (if getCurrentLang s = lit ''kn'' then lit ''kn-IN''
                                    else lit ''en-IN''),
                          onstart_set = True, onresult_set = True,
                          onerror_set = True, onend_set = True, status = Idle\<rparr>],
                      recognition := Some (length (sessions s))\<rparr>))"

definition startListening :: "state \<Rightarrow> outcome" where
  "startListening s =
     andThen (if recognition s = None then initRecognition s else Normal s)
       (\<lambda>s1. try_catch (on_recognition session_start s1)
          (\<lambda>e s2. try_catch
             (andThen (on_recognition session_stop s2) (on_recognition session_start))
             (\<lambda>e' s3. Normal s3)))"

definition stopListening :: "state \<Rightarrow> outcome" where
  "stopListening s =
     andThen
       (case recognition s of
          None \<Rightarrow> Normal s
        | Some i \<Rightarrow> try_catch (session_stop i s) (\<lambda>e s'. Normal s'))
       (\<lambda>s'. Normal (s'\<lparr>isListening := False\<rparr>))"

definition toggleListening :: "state \<Rightarrow> outcome" where
  "toggleListening s =
     andThen (if recognition s = None then initRecognition s else Normal s)
       (\<lambda>s1. if isListening s1 then stopListening s1 else startListening s1)"


section \<open>va.js: sending a message to the backend\<close>

definition systemInstructionKn :: jsstring where
  "systemInstructionKn =
     [0x000A, 0x0CA8, 0x0CC0, 0x0CB5, 0x0CC1, 0x0020, 0x0C92, 0x0CAC, 0x0CCD, 0x0CAC, 0x0020,
      0x0CB8, 0x0CCD, 0x0CA8, 0x0CC7, 0x0CB9, 0x0CAD, 0x0CB0, 0x0CBF, 0x0CA4, 0x002C, 0x0020,
      0x0CB8, 0x0CB0, 0x0CB3, 0x002C, 0x0020, 0x0CAE, 0x0CA4, 0x0CCD, 0x0CA4, 0x0CC1, 0x0020,
      0x0CB8, 0x0CA6, 0x0CBE, 0x0020, 0x0CB6, 0x0CBF, 0x0CB7, 0x0CCD, 0x0C9F, 0x0020, 0x004B,
      0x0061, 0x006E, 0x006E, 0x0061, 0x0064, 0x0061, 0x0020, 0x0CB8, 0x0CB9, 0x0CBE, 0x0CAF,
      0x0C97, 0x0CBE, 0x0CB0, 0x002E, 0x000A, 0x0CA8, 0x0CC0, 0x0CB5, 0x0CC1, 0x0020, 0x0CB8,
      0x0CB0, 0x0CB3, 0x0020, 0x0CAE, 0x0CBE, 0x0CA4, 0x0CBF, 0x0CA8, 0x0020, 0x0CB6, 0x0CC8,
      0x0CB2, 0x0CBF, 0x0CAF, 0x0CB2, 0x0CCD, 0x0CB2, 0x0CBF, 0x0020, 0x0031, 0x0030, 0x0030,
      0x0025, 0x0020, 0x0C95, 0x0CA8, 0x0CCD, 0x0CA8, 0x0CA1, 0x0CA6, 0x0020, 0x0C89, 0x0CA4,
      0x0CCD, 0x0CA4, 0x0CB0, 0x0020, 0x0CA8, 0x0CC0, 0x0CA1, 0x0CBF, 0x002E, 0x000A]"

definition systemInstructionEn :: jsstring where
  "systemInstructionEn = lit ''Reply in short, friendly English.''"

text \<open>The three bubbles of the error paths and the placeholder for a missing reply.\<close>

definition msg_recognition_error :: jsstring where
  "msg_recognition_error =
     [0x0C95, 0x0CCD, 0x0CB7, 0x0CAE, 0x0CBF, 0x0CB8, 0x0CBF, 0x002C, 0x0020, 0x0CB5, 0x0CBE,
      0x0C9A, 0x0CA8, 0x0CB5, 0x0CA8, 0x0CCD, 0x0CA8, 0x0CC1, 0x0020, 0x0CB9, 0x0CBF, 0x0CA1,
      0x0CBF, 0x0CAF, 0x0CB2, 0x0CBE, 0x0C97, 0x0CB2, 0x0CBF, 0x0CB2, 0x0CCD, 0x0CB2, 0x002E]"

definition msg_connection_error :: jsstring where
  "msg_connection_error =
     [0x26A0, 0xFE0F, 0x0020, 0x0CB8, 0x0C82, 0x0CAA, 0x0CB0, 0x0CCD, 0x0C95, 0x0020, 0x0CA6,
      0x0CCB, 0x0CB7, 0x002E]"

definition msg_try_again :: jsstring where
  "msg_try_again =
     [0x26A0, 0xFE0F, 0x0020, 0x0CA6, 0x0CCB, 0x0CB7, 0x002E, 0x0020, 0x0CAE, 0x0CA4, 0x0CCD,
      0x0CA4, 0x0CC6, 0x0020, 0x0CAA, 0x0CCD, 0x0CB0, 0x0CAF, 0x0CA4, 0x0CCD, 0x0CA8, 0x0CBF,
      0x0CB8, 0x0CBF, 0x002E]"

definition msg_no_reply :: jsstring where
  "msg_no_reply =
     [0x0C95, 0x0CCD, 0x0CB7, 0x0CAE, 0x0CBF, 0x0CB8, 0x0CBF, 0x0020, 0x2014, 0x0020, 0x0C89,
      0x0CA4, 0x0CCD, 0x0CA4, 0x0CB0, 0x0020, 0x0CB8, 0x0CBF, 0x0C97, 0x0CB2, 0x0CBF, 0x0CB2,
      0x0CCD, 0x0CB2, 0x002E]"

definition LATIN_REGEX :: "(16 word \<times> 16 word) list" where
  "LATIN_REGEX = [(0x0041, 0x005A), (0x0061, 0x007A)]"

text \<open>
  What the two \<^verbatim>\<open>await\<close>s of \<^verbatim>\<open>sendMessageToAPI\<close> can deliver: the \<^verbatim>\<open>fetch\<close>
  promise rejects, or it resolves to a response with its \<^verbatim>\<open>ok\<close> flag and a body.
  \<open>NoObject\<close> is a body on which \<^verbatim>\<open>response.json()\<close> rejects or that parses to
  \<^verbatim>\<open>null\<close>, so that \<^verbatim>\<open>data.reply\<close> throws; \<open>Object r\<close> is a body whose
  \<^verbatim>\<open>reply\<close> property is the string \<open>r\<close>, or is missing (\<open>None\<close>).
\<close>

datatype body = NoObject | Object "jsstring option"

datatype response = Rejected | Response bool body

text \<open>The \<^verbatim>\<open>catch\<close> clause that wraps the whole body of \<^verbatim>\<open>sendMessageToAPI\<close>.\<close>

definition sendMessageToAPI_catch :: "exn \<Rightarrow> state \<Rightarrow> outcome" where
  "sendMessageToAPI_catch err s = addMessage Bot msg_try_again s"

text \<open>
  \<^verbatim>\<open>sendMessageToAPI(text, lang, triedRetry)\<close> up to \<^verbatim>\<open>await fetch(...)\<close>: the call
  posts its request and is suspended.
\<close>

definition sendMessageToAPI :: "jsstring \<Rightarrow> jsstring \<Rightarrow> bool \<Rightarrow> state \<Rightarrow> outcome" where
  "sendMessageToAPI text lang triedRetry s =
     try_catch
       (let systemInstruction =
              (if lang = lit ''kn'' then systemInstructionKn else systemInstructionEn);
            fullPrompt = systemInstruction @ [0x000A, 0x000A] @ lit ''User: '' @ text
        in Normal (s\<lparr>fetches := fetches s @
                        [\<lparr>f_request = \<lparr>rq_message = fullPrompt, rq_language = lang\<rparr>,
                          f_text = text, f_lang = lang, f_triedRetry = triedRetry,
                          f_settled = False\<rparr>]\<rparr>))
       sendMessageToAPI_catch"


section \<open>va.js: speech output\<close>

definition femaleHints :: "jsstring list" where
  "femaleHints = [lit ''female'', lit ''zira'', lit ''anya'', lit ''meera'', lit ''sangeet'',
                  lit ''sangeetha'', lit ''google'', lit ''amy'', lit ''samantha'',
                  lit ''alloy'']"

text \<open>
  The two tests that the callbacks of \<^verbatim>\<open>selectFemaleVoiceForLang\<close> are made of:
  \<^verbatim>\<open>v.lang && v.lang.toLowerCase().includes(lang === 'kn' ? 'kn' : 'en')\<close> and
  \<^verbatim>\<open>femaleHints.some(h => v.name.toLowerCase().includes(h))\<close>.
\<close>

definition langMatches :: "(jsstring \<Rightarrow> jsstring) \<Rightarrow> jsstring \<Rightarrow> voice \<Rightarrow> bool" where
  "langMatches lower lang v =
     (truthy (v_lang v) \<and>
      str_includes (lower (v_lang v)) (if lang = lit ''kn'' then lit ''kn'' else lit ''en''))"

definition nameHinted :: "(jsstring \<Rightarrow> jsstring) \<Rightarrow> voice \<Rightarrow> bool" where
  "nameHinted lower v = list_ex (\<lambda>h. str_includes (lower (v_name v)) h) femaleHints"

definition selectFemaleVoiceForLang ::
  "(jsstring \<Rightarrow> jsstring) \<Rightarrow> voice list \<Rightarrow> jsstring \<Rightarrow> voice option" where
  "selectFemaleVoiceForLang lower vs lang =
     (case find (\<lambda>v. langMatches lower lang v \<and> nameHinted lower v) vs of
        Some found \<Rightarrow> Some found
      | None \<Rightarrow>
          (case find (\<lambda>v. langMatches lower lang v) vs of
             Some found \<Rightarrow> Some found
           | None \<Rightarrow>
               (case find (\<lambda>v. nameHinted lower v) vs of
                  Some found \<Rightarrow> Some found
                | None \<Rightarrow> (if length vs \<noteq> 0 then Some (vs ! 0) else None))))"

definition stopSpeaking :: "state \<Rightarrow> outcome" where
  "stopSpeaking s =
     (let s1 = (case speechSynthesis s of
                  None \<Rightarrow> s
                | Some synth \<Rightarrow>
                    if current synth \<noteq> None \<or> pending synth \<noteq> []
                    then s\<lparr>speechSynthesis := Some (synth\<lparr>current := None, pending := []\<rparr>)\<rparr>
                    else s)
      in Normal (s1\<lparr>isBotSpeaking := False\<rparr>))"

text \<open>
  \<^verbatim>\<open>speakOut(text, lang)\<close> up to \<^verbatim>\<open>synth.speak(utter)\<close>, which queues the
  utterance; its two handlers run when the platform delivers the events.
\<close>

definition speakOut :: "jsstring \<Rightarrow> jsstring \<Rightarrow> state \<Rightarrow> outcome" where
  "speakOut text lang s =
     andThen (stopSpeaking s)
       (\<lambda>s1. case speechSynthesis s1 of
          None \<Rightarrow> Normal s1
        | Some synth \<Rightarrow>
            (let selected = selectFemaleVoiceForLang (toLowerCase s1) (voices synth) lang;
                 utter = \<lparr>u_text = text,
                          u_lang = (if lang = lit ''kn'' then lit ''kn-IN'' else lit ''en-IN''),
                          u_voice = selected\<rparr>
             in Normal (s1\<lparr>speechSynthesis :=
                              Some (synth\<lparr>pending := pending synth @ [utter]\<rparr>)\<rparr>)))"

definition utter_onstart :: "state \<Rightarrow> outcome" where
  "utter_onstart s =
     stopListening (s\<lparr>isBotSpeaking := True, wasListeningBeforeSpeak := isListening s\<rparr>)"

definition utter_onend :: "state \<Rightarrow> outcome" where
  "utter_onend s =
     (let s1 = s\<lparr>isBotSpeaking := False\<rparr>;
          s2 = (if wasListeningBeforeSpeak s1 then s1\<lparr>timers := timers s1 @ [200]\<rparr> else s1)
      in Normal (s2\<lparr>wasListeningBeforeSpeak := False\<rparr>))"

text \<open>\<^verbatim>\<open>data.reply || placeholder\<close>.\<close>

definition reply_or_placeholder :: "jsstring option \<Rightarrow> jsstring" where
  "reply_or_placeholder r =
     (case r of None \<Rightarrow> msg_no_reply | Some t \<Rightarrow> if truthy t then t else msg_no_reply)"

text \<open>
  \<^verbatim>\<open>sendMessageToAPI\<close> from the point where the awaited \<^verbatim>\<open>fetch\<close> settles, for the
  call suspended with the arguments \<open>text\<close>, \<open>lang\<close> and \<open>triedRetry\<close>.
\<close>

definition sendMessageToAPI_resume ::
  "jsstring \<Rightarrow> jsstring \<Rightarrow> bool \<Rightarrow> response \<Rightarrow> state \<Rightarrow> outcome" where
  "sendMessageToAPI_resume text lang triedRetry resp s =
     try_catch
       (case resp of
          Rejected \<Rightarrow> Thrown NetworkError s
        | Response ok b \<Rightarrow>
            if \<not> ok then addMessage Bot msg_connection_error s
            else (case b of
                    NoObject \<Rightarrow> Thrown SyntaxError s
                  | Object r \<Rightarrow>
                      (let reply = reply_or_placeholder r
                       in if lang = lit ''kn'' \<and> regex_test LATIN_REGEX reply \<and> \<not> triedRetry
                          then sendMessageToAPI text lang True s
                          else andThen (addMessage Bot reply s) (speakOut reply lang))))
       sendMessageToAPI_catch"


section \<open>va.js: the event handlers\<close>

definition recognition_onstart :: "state \<Rightarrow> outcome" where
  "recognition_onstart s = Normal (s\<lparr>isListening := True\<rparr>)"

text \<open>
  \<^verbatim>\<open>recognition.onresult\<close>, given \<^verbatim>\<open>event.results[0][0].transcript\<close>.
\<close>

definition recognition_onresult :: "jsstring \<Rightarrow> state \<Rightarrow> outcome" where
  "recognition_onresult t s =
     (let transcript = trim (if truthy t then t else []) in
      if \<not> truthy transcript then Normal s
      else (let detected = detectLangFromText (Some transcript) in
            andThen (saveLang detected s)
              (\<lambda>s1. andThen (addMessage User transcript s1)
                 (sendMessageToAPI transcript detected False))))"

definition recognition_onerror :: "state \<Rightarrow> outcome" where
  "recognition_onerror s = addMessage Bot msg_recognition_error s"

definition recognition_onend :: "state \<Rightarrow> outcome" where
  "recognition_onend s = Normal (s\<lparr>isListening := False\<rparr>)"

definition langBadge_onclick :: "state \<Rightarrow> outcome" where
  "langBadge_onclick s =
     (let newLang = (if getCurrentLang s = lit ''kn'' then lit ''en'' else lit ''kn'') in
      andThen (saveLang newLang s) recreateRecognition)"

definition closeBtn_onclick :: "state \<Rightarrow> outcome" where
  "closeBtn_onclick s = andThen (stopListening s) stopSpeaking"

text \<open>
  \<^verbatim>\<open>createVoiceChatBox()\<close>: builds the box with its empty message area, unless it
  exists, and stores the current language.
\<close>

definition createVoiceChatBox :: "state \<Rightarrow> outcome" where
  "createVoiceChatBox s =
     (if area s \<noteq> None then Normal s
      else (let s1 = s\<lparr>area := Some []\<rparr> in saveLang (getCurrentLang s1) s1))"


section \<open>va.js: the widget as a transition system\<close>

text \<open>
  The script runs on the browser's event loop: one handler at a time, each to completion.
  An event is delivered only where the platform can deliver it: a click needs the box's
  buttons; a recognition object gets \<^verbatim>\<open>start\<close> once its \<^verbatim>\<open>start()\<close> was accepted,
  \<^verbatim>\<open>result\<close> while it runs or is stopping, \<^verbatim>\<open>error\<close> and \<^verbatim>\<open>end\<close> while it is
  not idle; a \<^verbatim>\<open>fetch\<close> settles once; the utterance at the head of the queue starts
  when none is being spoken, and the one being spoken ends; a pending timer fires and is
  gone. Where the event cannot occur, or the object's handler property is null, the
  state of the script stays as it is.
\<close>

datatype event =
    DomContentLoaded
  | ClickLangBadge
  | ClickClear
  | ClickClose
  | ClickMic
  | RecStart nat
  | RecResult nat jsstring
  | RecError nat
  | RecEnd nat
  | FetchDone nat response
  | UtterStart
  | UtterEnd
  | TimerFire nat

fun step :: "event \<Rightarrow> state \<Rightarrow> state" where
  "step DomContentLoaded s = settle (createVoiceChatBox s)"
| "step ClickLangBadge s = (if area s = None then s else settle (langBadge_onclick s))"
| "step ClickClear s = (if area s = None then s else settle (clearChat s))"
| "step ClickClose s = (if area s = None then s else settle (closeBtn_onclick s))"
| "step ClickMic s = (if area s = None then s else settle (toggleListening s))"
| "step (RecStart i) s =
     (if i < length (sessions s) \<and> status (sessions s ! i) = Starting
      then (let s1 = upd_session i (\<lambda>r. r\<lparr>status := Running\<rparr>) s in
            if onstart_set (sessions s ! i) then settle (recognition_onstart s1) else s1)
      else s)"
| "step (RecResult i t) s =
     (if i < length (sessions s) \<and>
         (status (sessions s ! i) = Running \<or> status (sessions s ! i) = Stopping)
      then (if onresult_set (sessions s ! i) then settle (recognition_onresult t s) else s)
      else s)"
| "step (RecError i) s =
     (if i < length (sessions s) \<and> status (sessions s ! i) \<noteq> Idle
      then (if onerror_set (sessions s ! i) then settle (recognition_onerror s) else s)
      else s)"
| "step (RecEnd i) s =
     (if i < length (sessions s) \<and> status (sessions s ! i) \<noteq> Idle
      then (let s1 = upd_session i (\<lambda>r. r\<lparr>status := Idle\<rparr>) s in
            if onend_set (sessions s ! i) then settle (recognition_onend s1) else s1)
      else s)"
| "step (FetchDone n resp) s =
     (if n < length (fetches s) \<and> \<not> f_settled (fetches s ! n)
      then (let f = fetches s ! n;
                s1 = s\<lparr>fetches := (fetches s)[n := f\<lparr>f_settled := True\<rparr>]\<rparr>
            in settle (sendMessageToAPI_resume (f_text f) (f_lang f) (f_triedRetry f) resp s1))
      else s)"
| "step UtterStart s =
     (case speechSynthesis s of
        None \<Rightarrow> s
      | Some synth \<Rightarrow>
          (case current synth of
             Some u \<Rightarrow> s
           | None \<Rightarrow>
               (case pending synth of
                  [] \<Rightarrow> s
                | u # us \<Rightarrow>
                    settle (utter_onstart
                      (s\<lparr>speechSynthesis := Some (synth\<lparr>current := Some u, pending := us\<rparr>)\<rparr>)))))"
| "step UtterEnd s =
     (case speechSynthesis s of
        None \<Rightarrow> s
      | Some synth \<Rightarrow>
          (case current synth of
             None \<Rightarrow> s
           | Some u \<Rightarrow>
               settle (utter_onend (s\<lparr>speechSynthesis := Some (synth\<lparr>current := None\<rparr>)\<rparr>))))"
| "step (TimerFire n) s =
     (if n < length (timers s)
      then settle (startListening (s\<lparr>timers := take n (timers s) @ drop (Suc n) (timers s)\<rparr>))
      else s)"

fun run :: "event list \<Rightarrow> state \<Rightarrow> state" where
  "run [] s = s"
| "run (e # es) s = run es (step e s)"

text \<open>
  The state in which the script has been loaded and nothing has happened yet, on a
  platform with the given capabilities and stored language.
\<close>

definition loaded :: "bool \<Rightarrow> bool \<Rightarrow> (jsstring \<Rightarrow> jsstring) \<Rightarrow> synth option
                       \<Rightarrow> jsstring option \<Rightarrow> state" where
  "loaded sr fails lower sy stored =
     \<lparr>currentLang = None, storedLang = stored, storageFails = fails, srSupported = sr,
      toLowerCase = lower, sessions = [], recognition = None, isListening = False,
      isBotSpeaking = False, wasListeningBeforeSpeak = False, chatHistory = [],
      area = None, speechSynthesis = sy, timers = [], fetches = [], alerts = []\<rparr>"


section \<open>The backend: the chatbot's conversation context\<close>

text \<open>
  \<^verbatim>\<open>cbChatContext\<close> is a module-level array of \<^verbatim>\<open>{role, content, lang}\<close>. The handler
  of \<^verbatim>\<open>/api/cb-chat\<close> is an \<^verbatim>\<open>async\<close> function: it runs until it awaits the model and
  goes on when the awaited call has settled, and the server handles other requests in
  between. It awaits twice. \<^verbatim>\<open>translateToEnglish\<close> is awaited before the handler has
  read the context; \<^verbatim>\<open>completions.create\<close> is awaited between the push of the user's
  entry and the push of the assistant's. On the context the handler is therefore two
  steps: \<open>cb_chat_begin\<close>, taken when the translation (if any) has settled, and
  \<open>cb_chat_finish\<close>, taken when the completion has settled, with the handler's local
  \<^verbatim>\<open>language\<close> carried from the one to the other. An awaited call to the model
  rejects (\<open>Fails\<close>) or resolves to a completion whose
  \<^verbatim>\<open>choices?.[0]?.message?.content\<close> is a string or is missing.
\<close>

datatype chat_role = UserRole | AssistantRole

record entry =
  e_role :: chat_role
  e_content :: jsstring
  e_lang :: jsstring

record cb_body =
  b_message :: "jsstring option"
  b_language :: "jsstring option"

datatype completion = Fails | Content "jsstring option"

datatype http = Http nat jsstring

definition translateToEnglish :: "bool \<Rightarrow> completion \<Rightarrow> jsstring \<Rightarrow> jsstring" where
  "translateToEnglish apiKey tr text =
     (if \<not> apiKey then text
      else (case tr of
              Fails \<Rightarrow> text
            | Content c \<Rightarrow>
                (case c of
                   None \<Rightarrow> text
                 | Some out \<Rightarrow> if truthy (trim out) then trim out else text)))"

text \<open>\<^verbatim>\<open>xs.slice(-n)\<close>: the last \<open>n\<close> elements, all of them when there are fewer.\<close>

definition slice_last :: "nat \<Rightarrow> 'a list \<Rightarrow> 'a list" where
  "slice_last n xs = drop (length xs - n) xs"

text \<open>
  The handler up to \<^verbatim>\<open>await openaiChatbotClient.chat.completions.create(...)\<close>: it
  has answered already (400 or 500), or it is suspended with its \<^verbatim>\<open>language\<close>.
\<close>

datatype begun = Answered http | Awaiting jsstring

definition cb_chat_begin ::
  "cb_body \<Rightarrow> bool \<Rightarrow> completion \<Rightarrow> entry list \<Rightarrow> begun \<times> entry list" where
  "cb_chat_begin body apiKey tr ctx =
     (let userMessage = (case b_message body of None \<Rightarrow> [] | Some m \<Rightarrow> m);
          language = (case b_language body of
                        None \<Rightarrow> lit ''en''
                      | Some l \<Rightarrow> if truthy l then l else lit ''en'')
      in if \<not> truthy userMessage then (Answered (Http 400 (lit ''Message required'')), ctx)
         else if \<not> apiKey
         then (Answered (Http 500 ([0x26A0, 0xFE0F] @
                                   lit '' Server configuration error. Contact admin.'')),
               ctx)
         else
           (let userMessage1 = (if language = lit ''en''
                                then translateToEnglish apiKey tr userMessage
                                else userMessage);
                ctx1 = (if length ctx > 0 \<and> truthy (e_lang (ctx ! 0))
                           \<and> e_lang (ctx ! 0) \<noteq> language
                        then [] else ctx);
                ctx2 = ctx1 @ [\<lparr>e_role = UserRole, e_content = userMessage1, e_lang = language\<rparr>]
            in (Awaiting language, ctx2)))"

text \<open>
  The handler from the point where the awaited completion has settled, on the context
  as it is by then: the \<^verbatim>\<open>catch\<close> clause and the ``no content'' return answer 500
  and leave the function; otherwise the reply is pushed and the context cut to its
  last ten entries.
\<close>

definition cb_chat_finish :: "jsstring \<Rightarrow> completion \<Rightarrow> entry list \<Rightarrow> http \<times> entry list" where
  "cb_chat_finish language cm ctx =
     (case cm of
        Fails \<Rightarrow> (Http 500 (lit ''Failed to connect to chatbot model.''), ctx)
      | Content c \<Rightarrow>
          (case c of
             None \<Rightarrow> (Http 500 ([0x26A0, 0xFE0F] @ lit '' No response from model.''), ctx)
           | Some raw \<Rightarrow>
               (let botReply = trim raw in
                if \<not> truthy botReply
                then (Http 500 ([0x26A0, 0xFE0F] @ lit '' No response from model.''), ctx)
                else
                  (let ctx3 = ctx @ [\<lparr>e_role = AssistantRole, e_content = botReply,
                                      e_lang = language\<rparr>];
                       ctx4 = (if length ctx3 > 10 then slice_last 10 ctx3 else ctx3)
                   in (Http 200 botReply, ctx4)))))"

text \<open>
  The server: the context, the handlers suspended at their completion in the order
  they got there (each with its \<^verbatim>\<open>language\<close>, \<open>None\<close> once it has gone on), and the
  answers of \<^verbatim>\<open>/api/cb-chat\<close> in the order they were sent. Its events: a request to
  \<^verbatim>\<open>/api/cb-chat\<close> gets to read the context, the completion a suspended handler
  waits for settles, and a request to \<^verbatim>\<open>/api/cb-clear\<close>.
\<close>

record server =
  cbChatContext :: "entry list"
  awaiting :: "jsstring option list"
  replies :: "http list"

datatype cb_event = Arrives cb_body bool completion | Resolves nat completion | Clears

fun server_step :: "cb_event \<Rightarrow> server \<Rightarrow> server" where
  "server_step (Arrives body apiKey tr) sv =
     (case cb_chat_begin body apiKey tr (cbChatContext sv) of
        (Answered h, ctx) \<Rightarrow> sv\<lparr>cbChatContext := ctx, replies := replies sv @ [h]\<rparr>
      | (Awaiting l, ctx) \<Rightarrow> sv\<lparr>cbChatContext := ctx, awaiting := awaiting sv @ [Some l]\<rparr>)"
| "server_step (Resolves n cm) sv =
     (if n < length (awaiting sv)
      then (case awaiting sv ! n of
              None \<Rightarrow> sv
            | Some l \<Rightarrow>
                (case cb_chat_finish l cm (cbChatContext sv) of
                   (h, ctx) \<Rightarrow> sv\<lparr>cbChatContext := ctx,
                                   awaiting := (awaiting sv)[n := None],
                                   replies := replies sv @ [h]\<rparr>))
      else sv)"
| "server_step Clears sv = sv\<lparr>cbChatContext := []\<rparr>"

fun server_run :: "cb_event list \<Rightarrow> server \<Rightarrow> server" where
  "server_run [] sv = sv"
| "server_run (e # es) sv = server_run es (server_step e sv)"

definition server_start :: server where
  "server_start = \<lparr>cbChatContext = [], awaiting = [], replies = []\<rparr>"

text \<open>
  A request that no other request overlaps with: its handler begins and, when it has
  been suspended, finishes on the context it left.
\<close>

definition cb_chat ::
  "cb_body \<Rightarrow> bool \<Rightarrow> completion \<Rightarrow> completion \<Rightarrow> entry list \<Rightarrow> http \<times> entry list" where
  "cb_chat body apiKey tr cm ctx =
     (case cb_chat_begin body apiKey tr ctx of
        (Answered h, ctx') \<Rightarrow> (h, ctx')
      | (Awaiting l, ctx') \<Rightarrow> cb_chat_finish l cm ctx')"

text \<open>
  Requests handled one after the other, each finished before the next one is begun:
  \<^verbatim>\<open>/api/cb-chat\<close> with its body and awaited results, and \<^verbatim>\<open>/api/cb-clear\<close>.
\<close>

datatype cb_call = Chat cb_body bool completion completion | Clear

fun serve :: "cb_call \<Rightarrow> entry list \<Rightarrow> entry list" where
  "serve (Chat body apiKey tr cm) ctx = snd (cb_chat body apiKey tr cm ctx)"
| "serve Clear ctx = []"

fun serve_all :: "cb_call list \<Rightarrow> entry list \<Rightarrow> entry list" where
  "serve_all [] ctx = ctx"
| "serve_all (c # cs) ctx = serve_all cs (serve c ctx)"

text \<open>The language a request is handled in: \<^verbatim>\<open>req.body.language || 'en'\<close>.\<close>

definition request_language :: "cb_body \<Rightarrow> jsstring" where
  "request_language body =
     (case b_language body of None \<Rightarrow> lit ''en'' | Some l \<Rightarrow> if truthy l then l else lit ''en'')"


section \<open>Notions the properties are stated with\<close>

text \<open>The state with one more bubble in the message area, when the area exists.\<close>

definition bubble :: "role \<Rightarrow> jsstring \<Rightarrow> state \<Rightarrow> state" where
  "bubble r t s = s\<lparr>area := map_option (\<lambda>ms. ms @ [(r, t)]) (area s)\<rparr>"

text \<open>
  The record of a call \<^verbatim>\<open>sendMessageToAPI(t, lang, tried)\<close> suspended at its
  \<^verbatim>\<open>fetch\<close>.
\<close>

definition call_of :: "jsstring \<Rightarrow> jsstring \<Rightarrow> bool \<Rightarrow> fetch" where
  "call_of t lang tried =
     \<lparr>f_request =
        \<lparr>rq_message = (if lang = lit ''kn'' then systemInstructionKn else systemInstructionEn)
                        @ [0x000A, 0x000A] @ lit ''User: '' @ t,
         rq_language = lang\<rparr>,
      f_text = t, f_lang = lang, f_triedRetry = tried, f_settled = False\<rparr>"

text \<open>
  The retry condition as the specification words it: a reply was received (the response
  is a success and carries an object), the locale is the secondary one, the reply
  contains a Latin letter, and the call is not itself a retry.
\<close>

definition should_retry :: "jsstring \<Rightarrow> bool \<Rightarrow> response \<Rightarrow> bool" where
  "should_retry lang triedRetry resp =
     (case resp of
        Rejected \<Rightarrow> False
      | Response ok b \<Rightarrow>
          (case b of
             NoObject \<Rightarrow> False
           | Object r \<Rightarrow>
               ok \<and> lang = lit ''kn'' \<and> regex_test LATIN_REGEX (reply_or_placeholder r)
                  \<and> \<not> triedRetry))"

text \<open>\<open>x\<close> is the first element of \<open>xs\<close> that satisfies \<open>P\<close>.\<close>

definition first_with :: "('a \<Rightarrow> bool) \<Rightarrow> 'a list \<Rightarrow> 'a \<Rightarrow> bool" where
  "first_with P xs x = (\<exists>i<length xs. xs ! i = x \<and> P x \<and> (\<forall>j<i. \<not> P (xs ! j)))"


text \<open>
  The context a request to \<^verbatim>\<open>/api/cb-chat\<close> goes on with (emptied when its first
  entry carries a language other than the request's), and the two entries the handler
  pushes: the user's message, translated for \<^verbatim>\<open>"en"\<close>, and the model's reply.
\<close>

definition kept_context :: "cb_body \<Rightarrow> entry list \<Rightarrow> entry list" where
  "kept_context body ctx =
     (if ctx \<noteq> [] \<and> truthy (e_lang (ctx ! 0)) \<and> e_lang (ctx ! 0) \<noteq> request_language body
      then [] else ctx)"

definition user_entry :: "cb_body \<Rightarrow> bool \<Rightarrow> completion \<Rightarrow> entry" where
  "user_entry body apiKey tr =
     \<lparr>e_role = UserRole,
      e_content = (let m = (case b_message body of None \<Rightarrow> [] | Some m \<Rightarrow> m) in
                   if request_language body = lit ''en'' then translateToEnglish apiKey tr m
                   else m),
      e_lang = request_language body\<rparr>"

definition assistant_entry :: "cb_body \<Rightarrow> jsstring \<Rightarrow> entry" where
  "assistant_entry body r =
     \<lparr>e_role = AssistantRole, e_content = r, e_lang = request_language body\<rparr>"

text \<open>
  A transition is quiet when it schedules no restart of listening, leaves the resume
  flag as it is and does not turn listening on.
\<close>

definition quiet :: "state \<Rightarrow> state \<Rightarrow> bool" where
  "quiet s s' =
     (timers s' = timers s \<and> wasListeningBeforeSpeak s' = wasListeningBeforeSpeak s \<and>
      (isListening s' \<longrightarrow> isListening s))"

section \<open>Concrete inputs\<close>

text \<open>
  Lower-casing of the letters A to Z; on ASCII text it is what
  \<^verbatim>\<open>String.prototype.toLowerCase\<close> returns.
\<close>

definition ascii_lower :: "jsstring \<Rightarrow> jsstring" where
  "ascii_lower t = map (\<lambda>c. if 0x0041 \<le> c \<and> c \<le> 0x005A then c + 0x0020 else c) t"

text \<open>
  A browser with speech recognition, working storage, nothing stored, and a speech
  synthesiser that reports no voice, after \<^verbatim>\<open>DOMContentLoaded\<close>.
\<close>

definition page :: state where
  "page = step DomContentLoaded
            (loaded True False ascii_lower
               (Some \<lparr>voices = [], current = None, pending = []\<rparr>) None)"


definition example_voices :: "voice list" where
  "example_voices =
     [\<lparr>v_name = lit ''Microsoft David'', v_lang = lit ''en-US''\<rparr>,
      \<lparr>v_name = lit ''Google UK English Female'', v_lang = lit ''en-GB''\<rparr>,
      \<lparr>v_name = lit ''Lekha'', v_lang = lit ''hi-IN''\<rparr>]"

text \<open>The Kannada greeting of the specification's end-to-end example.\<close>

definition namaskara :: jsstring where
  "namaskara = [0x0CA8, 0x0CAE, 0x0CB8, 0x0CCD, 0x0C95, 0x0CBE, 0x0CB0]"


text \<open>A context of ten entries in English, and requests in both languages.\<close>

definition en_pair :: "entry list" where
  "en_pair = [\<lparr>e_role = UserRole, e_content = lit ''hi'', e_lang = lit ''en''\<rparr>,
              \<lparr>e_role = AssistantRole, e_content = lit ''hello'', e_lang = lit ''en''\<rparr>]"

definition ten_en :: "entry list" where
  "ten_en = en_pair @ en_pair @ en_pair @ en_pair @ en_pair"

definition en_body :: cb_body where
  "en_body = \<lparr>b_message = Some (lit ''hi''), b_language = Some (lit ''en'')\<rparr>"

definition kn_body :: cb_body where
  "kn_body = \<lparr>b_message = Some namaskara, b_language = Some (lit ''kn'')\<rparr>"

text \<open>A request in Kannada that carries no message.\<close>

definition kn_empty_body :: cb_body where
  "kn_empty_body = \<lparr>b_message = None, b_language = Some (lit ''kn'')\<rparr>"

text \<open>The request \<open>en_body\<close>, translated to ``hi'' and answered `` hello ''.\<close>

definition en_chat :: cb_call where
  "en_chat = Chat en_body True (Content (Some (lit ''hi''))) (Content (Some (lit '' hello '')))"

text \<open>
  Two overlapping requests: the English one is suspended at the model, the Kannada one
  arrives, and then the English one gets its reply.
\<close>

definition overlap :: "cb_event list" where
  "overlap = [Arrives en_body True (Content (Some (lit ''hi''))),
              Arrives kn_body True Fails,
              Resolves 0 (Content (Some (lit '' hello '')))]"

text \<open>The page once the user has clicked the mic and recognition has started.\<close>

definition listening_page :: state where
  "listening_page = run [ClickMic, RecStart 0] page"

text \<open>
  The user says ``hi'', the backend answers ``hello'', and while the answer is being
  spoken the user clicks the mic again: the idle recognition object accepts
  \<^verbatim>\<open>start()\<close> and delivers its \<^verbatim>\<open>start\<close> event.
\<close>

definition barge_in :: "event list" where
  "barge_in = [ClickMic, RecStart 0, RecResult 0 (lit ''hi''), RecEnd 0,
               FetchDone 0 (Response True (Object (Some (lit ''hello'')))),
               UtterStart, ClickMic, RecStart 0]"

text \<open>The user starts listening and then clicks the language badge.\<close>

definition toggle_while_listening :: "event list" where
  "toggle_while_listening = [ClickMic, RecStart 0, ClickLangBadge]"

section \<open>Properties of the language detector\<close>

lemma kannada_unit_iff_code_point:
  "(\<exists>cp\<in>set (codePoints t). 0xC80 \<le> cp \<and> cp \<le> 0xCFF) =
   (\<exists>c\<in>set t. 0x0C80 \<le> c \<and> c \<le> 0x0CFF)"
proof (induction t rule: codePoints.induct)
  case 1
  show ?case by simp
next
  case (2 c)
  show ?case by (simp add: word_le_nat_alt)
next
  case (3 h l cs)
  show ?case
  proof (cases "0xD800 \<le> h \<and> h \<le> 0xDBFF \<and> 0xDC00 \<le> l \<and> l \<le> 0xDFFF")
    case True
    then have nh: "\<not> (0x0C80 \<le> h \<and> h \<le> 0x0CFF)"
      and nl: "\<not> (0x0C80 \<le> l \<and> l \<le> 0x0CFF)"
      by (auto simp: word_le_nat_alt)
    have "(\<exists>cp\<in>set (codePoints (h # l # cs)). 0xC80 \<le> cp \<and> cp \<le> 0xCFF)
          = (\<exists>cp\<in>set (codePoints cs). 0xC80 \<le> cp \<and> cp \<le> 0xCFF)"
      using True by simp
    also have "\<dots> = (\<exists>c\<in>set cs. 0x0C80 \<le> c \<and> c \<le> 0x0CFF)"
      using 3(1) True by blast
    also have "\<dots> = (\<exists>c\<in>set (h # l # cs). 0x0C80 \<le> c \<and> c \<le> 0x0CFF)"
      using nh nl by auto
    finally show ?thesis .
  next
    case False
    with 3 show ?thesis by (auto simp: word_le_nat_alt)
  qed
qed

lemma regex_test_kannada:
  "regex_test KANNADA_REGEX t = (\<exists>c\<in>set t. 0x0C80 \<le> c \<and> c \<le> 0x0CFF)"
  by (simp add: regex_test_def KANNADA_REGEX_def list_ex_iff)

text \<open>
  C3. \<^verbatim>\<open>detectLangFromText\<close> is a total function of its argument alone. An absent
  and an empty text give \<^verbatim>\<open>"en"\<close>; a text gives \<^verbatim>\<open>"kn"\<close> exactly when one of
  its code points lies in the Kannada block U+0C80 to U+0CFF, and \<^verbatim>\<open>"en"\<close> otherwise;
  in particular every all-ASCII text gives \<^verbatim>\<open>"en"\<close>.
\<close>

theorem detectLangFromText_kannada:
  "detectLangFromText None = lit ''en'' \<and>
   detectLangFromText (Some []) = lit ''en'' \<and>
   detectLangFromText (Some t) =
     (if \<exists>cp\<in>set (codePoints t). 0xC80 \<le> cp \<and> cp \<le> 0xCFF
      then lit ''kn'' else lit ''en'') \<and>
   ((\<forall>c\<in>set t. c < 0x80) \<longrightarrow> detectLangFromText (Some t) = lit ''en'')"
proof -
  have a: "detectLangFromText (Some t) =
     (if \<exists>cp\<in>set (codePoints t). 0xC80 \<le> cp \<and> cp \<le> 0xCFF
      then lit ''kn'' else lit ''en'')"
    unfolding kannada_unit_iff_code_point
    by (cases t) (simp_all add: detectLangFromText_def truthy_def regex_test_kannada)
  have b: "detectLangFromText (Some t) = lit ''en''" if "\<forall>c\<in>set t. c < 0x80"
  proof -
    have "\<not> (\<exists>c\<in>set t. 0x0C80 \<le> c \<and> c \<le> 0x0CFF)"
      using that by (auto simp: word_le_nat_alt word_less_nat_alt)
    then have "\<not> regex_test KANNADA_REGEX t"
      by (simp only: regex_test_kannada not_False_eq_True)
    then show ?thesis
      by (simp add: detectLangFromText_def)
  qed
  show ?thesis using a b by (simp add: detectLangFromText_def truthy_def)
qed

theorem detectLangFromText_kannada_witness:
  "detectLangFromText (Some (lit ''hello'')) = lit ''en'' \<and>
   detectLangFromText (Some [0x0CA8, 0x0CAE, 0x0CB8, 0x0CCD, 0x0C95, 0x0CBE, 0x0CB0]) = lit ''kn'' \<and>
   detectLangFromText (Some (lit ''ok '' @ [0x0CA8])) = lit ''kn''"
  using detectLangFromText_kannada [of "lit ''hello''"]
        detectLangFromText_kannada [of "[0x0CA8, 0x0CAE, 0x0CB8, 0x0CCD, 0x0C95, 0x0CBE, 0x0CB0]"]
        detectLangFromText_kannada [of "lit ''ok '' @ [0x0CA8]"]
  by (simp add: lit_def)

section \<open>Properties of the widget's state on the page\<close>

lemma page_eq:
  "page = \<lparr>currentLang = Some (lit ''en''), storedLang = Some (lit ''en''), storageFails = False,
            srSupported = True, toLowerCase = ascii_lower, sessions = [], recognition = None,
            isListening = False, isBotSpeaking = False, wasListeningBeforeSpeak = False,
            chatHistory = [], area = Some [],
            speechSynthesis = Some \<lparr>voices = [], current = None, pending = []\<rparr>,
            timers = [], fetches = [], alerts = []\<rparr>"
  by (simp add: page_def loaded_def createVoiceChatBox_def getCurrentLang_def saveLang_def
                truthy_def try_catch_def localStorage_setItem_def lit_def)


section \<open>Properties of voice selection\<close>

lemma find_first_with: "find P xs = Some x \<longleftrightarrow> first_with P xs x"
  by (auto simp: find_Some_iff first_with_def)

lemma find_Some_if_exists: "\<exists>x\<in>set xs. P x \<Longrightarrow> \<exists>x. find P xs = Some x \<and> first_with P xs x"
  by (cases "find P xs") (auto simp: find_None_iff find_first_with)

lemma find_None_if_none: "\<not> (\<exists>x\<in>set xs. P x) \<Longrightarrow> find P xs = None"
  by (simp add: find_None_iff)

lemma select_tier1:
  assumes "\<exists>v\<in>set vs. langMatches lower lang v \<and> nameHinted lower v"
  shows "\<exists>v. selectFemaleVoiceForLang lower vs lang = Some v \<and>
             first_with (\<lambda>v. langMatches lower lang v \<and> nameHinted lower v) vs v"
proof -
  from find_Some_if_exists [OF assms] obtain v where
    "find (\<lambda>v. langMatches lower lang v \<and> nameHinted lower v) vs = Some v"
    "first_with (\<lambda>v. langMatches lower lang v \<and> nameHinted lower v) vs v" by blast
  then show ?thesis by (simp add: selectFemaleVoiceForLang_def)
qed

lemma select_tier2:
  assumes "\<not> (\<exists>v\<in>set vs. langMatches lower lang v \<and> nameHinted lower v)"
    and "\<exists>v\<in>set vs. langMatches lower lang v"
  shows "\<exists>v. selectFemaleVoiceForLang lower vs lang = Some v \<and>
             first_with (langMatches lower lang) vs v"
proof -
  from find_Some_if_exists [OF assms(2)] obtain v where
    "find (langMatches lower lang) vs = Some v" "first_with (langMatches lower lang) vs v" by blast
  with find_None_if_none [OF assms(1)] show ?thesis by (simp add: selectFemaleVoiceForLang_def)
qed

lemma select_tier3:
  assumes "\<not> (\<exists>v\<in>set vs. langMatches lower lang v)"
    and "\<exists>v\<in>set vs. nameHinted lower v"
  shows "\<exists>v. selectFemaleVoiceForLang lower vs lang = Some v \<and>
             first_with (nameHinted lower) vs v"
proof -
  from assms(1) have n1: "\<not> (\<exists>v\<in>set vs. langMatches lower lang v \<and> nameHinted lower v)" by blast
  from find_Some_if_exists [OF assms(2)] obtain v where
    "find (nameHinted lower) vs = Some v" "first_with (nameHinted lower) vs v" by blast
  with find_None_if_none [OF assms(1)] find_None_if_none [OF n1]
  show ?thesis by (simp add: selectFemaleVoiceForLang_def)
qed

lemma select_tier4:
  assumes "\<not> (\<exists>v\<in>set vs. langMatches lower lang v)"
    and "\<not> (\<exists>v\<in>set vs. nameHinted lower v)"
  shows "selectFemaleVoiceForLang lower vs lang = (if vs = [] then None else Some (vs ! 0))"
proof -
  from assms(1) have n1: "\<not> (\<exists>v\<in>set vs. langMatches lower lang v \<and> nameHinted lower v)" by blast
  from find_None_if_none [OF assms(1)] find_None_if_none [OF n1] find_None_if_none [OF assms(2)]
  show ?thesis by (simp add: selectFemaleVoiceForLang_def)
qed

lemma speakOut_queues:
  assumes "speechSynthesis s = Some sy"
  shows "speakOut msg lang s =
     Normal (s\<lparr>isBotSpeaking := False,
               speechSynthesis := Some (sy\<lparr>current := None,
                 pending := [\<lparr>u_text = msg,
                              u_lang = (if lang = lit ''kn'' then lit ''kn-IN'' else lit ''en-IN''),
                              u_voice = selectFemaleVoiceForLang (toLowerCase s) (voices sy) lang\<rparr>]\<rparr>)\<rparr>)"
  using assms by (simp add: speakOut_def stopSpeaking_def andThen_def Let_def)

text \<open>
  C8. \<^verbatim>\<open>selectFemaleVoiceForLang\<close> goes through its layers in strict order: when
  some voice matches the locale and carries a hint in its name, the result is the first
  such voice; else, when some voice matches the locale, the first such; else, when some
  voice carries a hint, the first such; else the first voice of the list; and none for an
  empty list. \<^verbatim>\<open>speakOut\<close> queues the utterance with whatever was selected, also
  with no voice at all.
\<close>

theorem voice_selection_layers:
  "((\<exists>v\<in>set vs. langMatches lower lang v \<and> nameHinted lower v) \<longrightarrow>
      (\<exists>v. selectFemaleVoiceForLang lower vs lang = Some v \<and>
           first_with (\<lambda>v. langMatches lower lang v \<and> nameHinted lower v) vs v)) \<and>
   (\<not> (\<exists>v\<in>set vs. langMatches lower lang v \<and> nameHinted lower v) \<and>
    (\<exists>v\<in>set vs. langMatches lower lang v) \<longrightarrow>
      (\<exists>v. selectFemaleVoiceForLang lower vs lang = Some v \<and>
           first_with (langMatches lower lang) vs v)) \<and>
   (\<not> (\<exists>v\<in>set vs. langMatches lower lang v) \<and> (\<exists>v\<in>set vs. nameHinted lower v) \<longrightarrow>
      (\<exists>v. selectFemaleVoiceForLang lower vs lang = Some v \<and>
           first_with (nameHinted lower) vs v)) \<and>
   (\<not> (\<exists>v\<in>set vs. langMatches lower lang v) \<and> \<not> (\<exists>v\<in>set vs. nameHinted lower v) \<and>
    vs \<noteq> [] \<longrightarrow> selectFemaleVoiceForLang lower vs lang = Some (vs ! 0)) \<and>
   (vs = [] \<longrightarrow> selectFemaleVoiceForLang lower vs lang = None) \<and>
   (speechSynthesis s = Some sy \<longrightarrow>
      (\<exists>s'. speakOut msg lang s = Normal s' \<and>
            map_option pending (speechSynthesis s') =
              Some [\<lparr>u_text = msg,
                     u_lang = (if lang = lit ''kn'' then lit ''kn-IN'' else lit ''en-IN''),
                     u_voice = selectFemaleVoiceForLang (toLowerCase s) (voices sy) lang\<rparr>]))"
proof -
  have t1: "(\<exists>v\<in>set vs. langMatches lower lang v \<and> nameHinted lower v) \<longrightarrow>
      (\<exists>v. selectFemaleVoiceForLang lower vs lang = Some v \<and>
           first_with (\<lambda>v. langMatches lower lang v \<and> nameHinted lower v) vs v)"
    by (rule impI) (rule select_tier1)
  have t2: "\<not> (\<exists>v\<in>set vs. langMatches lower lang v \<and> nameHinted lower v) \<and>
    (\<exists>v\<in>set vs. langMatches lower lang v) \<longrightarrow>
      (\<exists>v. selectFemaleVoiceForLang lower vs lang = Some v \<and>
           first_with (langMatches lower lang) vs v)"
    by (rule impI, erule conjE) (rule select_tier2)
  have t3: "\<not> (\<exists>v\<in>set vs. langMatches lower lang v) \<and> (\<exists>v\<in>set vs. nameHinted lower v) \<longrightarrow>
      (\<exists>v. selectFemaleVoiceForLang lower vs lang = Some v \<and>
           first_with (nameHinted lower) vs v)"
    by (rule impI, erule conjE) (rule select_tier3)
  have t4: "\<not> (\<exists>v\<in>set vs. langMatches lower lang v) \<and> \<not> (\<exists>v\<in>set vs. nameHinted lower v) \<and>
    vs \<noteq> [] \<longrightarrow> selectFemaleVoiceForLang lower vs lang = Some (vs ! 0)"
    by (rule impI, (erule conjE)+) (simp add: select_tier4)
  have t5: "vs = [] \<longrightarrow> selectFemaleVoiceForLang lower vs lang = None"
    by (simp add: selectFemaleVoiceForLang_def)
  have t6: "speechSynthesis s = Some sy \<longrightarrow>
      (\<exists>s'. speakOut msg lang s = Normal s' \<and>
            map_option pending (speechSynthesis s') =
              Some [\<lparr>u_text = msg,
                     u_lang = (if lang = lit ''kn'' then lit ''kn-IN'' else lit ''en-IN''),
                     u_voice = selectFemaleVoiceForLang (toLowerCase s) (voices sy) lang\<rparr>])"
    by (rule impI) (simp add: speakOut_queues)
  show ?thesis by (intro conjI t1 t2 t3 t4 t5 t6)
qed

lemmas voice_defs = selectFemaleVoiceForLang_def langMatches_def nameHinted_def femaleHints_def
  example_voices_def ascii_lower_def lit_def truthy_def

lemma example_both:
  "langMatches ascii_lower (lit ''en'') (example_voices ! 1) \<and> nameHinted ascii_lower (example_voices ! 1)"
  by (simp add: voice_defs)

lemma example_select:
  "selectFemaleVoiceForLang ascii_lower example_voices (lit ''en'') = Some (example_voices ! 1)"
  by (simp add: voice_defs)

theorem voice_selection_layers_witness:
  "(\<exists>v. selectFemaleVoiceForLang ascii_lower example_voices (lit ''en'') = Some v \<and>
        first_with (\<lambda>v. langMatches ascii_lower (lit ''en'') v \<and> nameHinted ascii_lower v)
          example_voices v) \<and>
   selectFemaleVoiceForLang ascii_lower example_voices (lit ''en'') = Some (example_voices ! 1) \<and>
   selectFemaleVoiceForLang ascii_lower [] (lit ''kn'') = None"
proof -
  have "example_voices ! 1 \<in> set example_voices"
    by (simp add: example_voices_def)
  with example_both
  have "\<exists>v\<in>set example_voices. langMatches ascii_lower (lit ''en'') v \<and> nameHinted ascii_lower v"
    by blast
  with voice_selection_layers [of example_voices ascii_lower "lit ''en''"]
  have a: "\<exists>v. selectFemaleVoiceForLang ascii_lower example_voices (lit ''en'') = Some v \<and>
        first_with (\<lambda>v. langMatches ascii_lower (lit ''en'') v \<and> nameHinted ascii_lower v)
          example_voices v"
    by blast
  from voice_selection_layers [of "[]" ascii_lower "lit ''kn''"]
  have b: "selectFemaleVoiceForLang ascii_lower [] (lit ''kn'') = None"
    by blast
  from a b example_select show ?thesis by blast
qed


section \<open>Properties of stopping\<close>

text \<open>
  C9. \<^verbatim>\<open>stopListening\<close> and \<^verbatim>\<open>stopSpeaking\<close> always return normally, leave
  \<open>isListening\<close>, respectively \<open>isBotSpeaking\<close>, false, and a second call in
  succession returns normally too and changes nothing; this holds as well with no
  recognition object and with no speech synthesis on the platform.
\<close>

theorem stop_idempotent:
  "(\<exists>s1. stopListening s = Normal s1 \<and> \<not> isListening s1 \<and> stopListening s1 = Normal s1) \<and>
   (\<exists>s1. stopSpeaking s = Normal s1 \<and> \<not> isBotSpeaking s1 \<and> stopSpeaking s1 = Normal s1 \<and>
         (case speechSynthesis s1 of None \<Rightarrow> speechSynthesis s = None
          | Some y \<Rightarrow> current y = None \<and> pending y = [])) \<and>
   (recognition s = None \<longrightarrow> stopListening s = Normal (s\<lparr>isListening := False\<rparr>)) \<and>
   (speechSynthesis s = None \<longrightarrow> stopSpeaking s = Normal (s\<lparr>isBotSpeaking := False\<rparr>))"
proof -
  have a: "\<exists>s1. stopListening s = Normal s1 \<and> \<not> isListening s1 \<and> stopListening s1 = Normal s1"
  proof (cases "recognition s")
    case None
    then show ?thesis by (simp add: stopListening_def andThen_def)
  next
    case (Some i)
    then show ?thesis
      by (cases "i < length (sessions s)")
         (auto simp: stopListening_def andThen_def try_catch_def session_stop_def upd_session_def
                     list_update_beyond)
  qed
  have b: "\<exists>s1. stopSpeaking s = Normal s1 \<and> \<not> isBotSpeaking s1 \<and> stopSpeaking s1 = Normal s1 \<and>
         (case speechSynthesis s1 of None \<Rightarrow> speechSynthesis s = None
          | Some y \<Rightarrow> current y = None \<and> pending y = [])"
    by (cases "speechSynthesis s") (auto simp: stopSpeaking_def Let_def)
  have c: "recognition s = None \<longrightarrow> stopListening s = Normal (s\<lparr>isListening := False\<rparr>)"
    by (simp add: stopListening_def andThen_def)
  have d: "speechSynthesis s = None \<longrightarrow> stopSpeaking s = Normal (s\<lparr>isBotSpeaking := False\<rparr>)"
    by (simp add: stopSpeaking_def)
  show ?thesis by (intro conjI a b c d)
qed

theorem stop_idempotent_witness:
  "(\<exists>s1. stopListening (run [ClickMic, RecStart 0] page) = Normal s1 \<and> \<not> isListening s1 \<and>
         stopListening s1 = Normal s1) \<and>
   isListening (run [ClickMic, RecStart 0] page) \<and>
   stopListening (loaded False False ascii_lower None None)
     = Normal (loaded False False ascii_lower None None) \<and>
   stopSpeaking (loaded False False ascii_lower None None)
     = Normal (loaded False False ascii_lower None None)"
proof -
  have a: "isListening (run [ClickMic, RecStart 0] page)"
    by (simp add: page_eq toggleListening_def initRecognition_def startListening_def
          andThen_def try_catch_def on_recognition_def session_start_def upd_session_def
          recognition_onstart_def getCurrentLang_def truthy_def lit_def Let_def)
  have b: "loaded False False ascii_lower None None\<lparr>isListening := False\<rparr>
             = loaded False False ascii_lower None None"
    "loaded False False ascii_lower None None\<lparr>isBotSpeaking := False\<rparr>
             = loaded False False ascii_lower None None"
    "recognition (loaded False False ascii_lower None None) = None"
    "speechSynthesis (loaded False False ascii_lower None None) = None"
    by (simp_all add: loaded_def)
  from stop_idempotent [of "run [ClickMic, RecStart 0] page"]
       stop_idempotent [of "loaded False False ascii_lower None None"] a b
  show ?thesis by simp
qed


section \<open>Properties of the conversation relay\<close>

lemma addMessage_bubble: "addMessage r t s = Normal (bubble r t s)"
  by (cases "area s") (simp_all add: addMessage_def bubble_def)

lemma sendMessageToAPI_issue:
  "sendMessageToAPI t lang tried s = Normal (s\<lparr>fetches := fetches s @ [call_of t lang tried]\<rparr>)"
  by (simp add: sendMessageToAPI_def try_catch_def Let_def call_of_def)

lemma speakOut_frame:
  "\<exists>s'. speakOut t lang s = Normal s' \<and> fetches s' = fetches s \<and> area s' = area s"
  by (cases "speechSynthesis s")
     (auto simp: speakOut_def stopSpeaking_def andThen_def Let_def split: option.splits)

lemma should_retry_cases:
  "should_retry lang tried resp \<Longrightarrow>
     \<exists>r. resp = Response True (Object r) \<and> lang = lit ''kn'' \<and>
         regex_test LATIN_REGEX (reply_or_placeholder r) \<and> \<not> tried"
  by (cases resp; simp add: should_retry_def split: body.splits)

lemma resume_not_ok:
  "sendMessageToAPI_resume t lang tried (Response False b) s = Normal (bubble Bot msg_connection_error s)"
  by (simp add: sendMessageToAPI_resume_def try_catch_def addMessage_bubble)

lemma resume_retry:
  assumes "should_retry lang tried resp"
  shows "sendMessageToAPI_resume t lang tried resp s =
           Normal (s\<lparr>fetches := fetches s @ [call_of t lang True]\<rparr>)"
proof -
  from should_retry_cases [OF assms] obtain r where r: "resp = Response True (Object r)"
    and c: "lang = lit ''kn''" "regex_test LATIN_REGEX (reply_or_placeholder r)" "\<not> tried"
    by blast
  have "sendMessageToAPI_resume t lang tried resp s =
          try_catch (sendMessageToAPI t lang True s) sendMessageToAPI_catch"
    unfolding sendMessageToAPI_resume_def r using c by (simp add: Let_def)
  also have "\<dots> = Normal (s\<lparr>fetches := fetches s @ [call_of t lang True]\<rparr>)"
    unfolding sendMessageToAPI_issue by (simp add: try_catch_def)
  finally show ?thesis .
qed

lemma resume_accept:
  assumes "\<not> should_retry lang tried (Response True (Object r))"
  shows "sendMessageToAPI_resume t lang tried (Response True (Object r)) s =
           speakOut (reply_or_placeholder r) lang (bubble Bot (reply_or_placeholder r) s)"
proof -
  obtain s' where s': "speakOut (reply_or_placeholder r) lang (bubble Bot (reply_or_placeholder r) s) = Normal s'"
    using speakOut_frame by blast
  from assms have n: "\<not> (lang = lit ''kn'' \<and> regex_test LATIN_REGEX (reply_or_placeholder r) \<and> \<not> tried)"
    by (simp add: should_retry_def)
  have "sendMessageToAPI_resume t lang tried (Response True (Object r)) s =
          try_catch (andThen (addMessage Bot (reply_or_placeholder r) s)
                             (speakOut (reply_or_placeholder r) lang)) sendMessageToAPI_catch"
    unfolding sendMessageToAPI_resume_def Let_def
    by (simp only: response.case body.case if_not_P [OF n] simp_thms if_False)
  also have "\<dots> = Normal s'"
    by (simp add: addMessage_bubble andThen_def s' try_catch_def)
  finally show ?thesis using s' by simp
qed

lemma resume_failure:
  "sendMessageToAPI_resume t lang tried Rejected s = Normal (bubble Bot msg_try_again s)"
  "sendMessageToAPI_resume t lang tried (Response True NoObject) s = Normal (bubble Bot msg_try_again s)"
  by (simp_all add: sendMessageToAPI_resume_def try_catch_def sendMessageToAPI_catch_def addMessage_bubble)

lemma resume_no_retry_fetches:
  assumes "\<not> should_retry lang tried resp"
  shows "fetches (settle (sendMessageToAPI_resume t lang tried resp s)) = fetches s"
proof (cases resp)
  case Rejected
  then show ?thesis by (simp add: resume_failure bubble_def)
next
  case (Response ok b)
  show ?thesis
  proof (cases ok)
    case False
    with Response show ?thesis by (simp add: resume_not_ok bubble_def)
  next
    case True
    show ?thesis
    proof (cases b)
      case NoObject
      with Response True show ?thesis by (simp add: resume_failure bubble_def)
    next
      case (Object r)
      obtain s' where s': "speakOut (reply_or_placeholder r) lang (bubble Bot (reply_or_placeholder r) s) = Normal s'"
         "fetches s' = fetches (bubble Bot (reply_or_placeholder r) s)"
        using speakOut_frame by blast
      from assms Response True Object
      have "\<not> should_retry lang tried (Response True (Object r))" by simp
      from resume_accept [OF this] Response True Object s' show ?thesis
        by (simp add: bubble_def)
    qed
  qed
qed

lemma step_FetchDone:
  assumes "n < length (fetches s)" "\<not> f_settled (fetches s ! n)"
  shows "step (FetchDone n resp) s =
     settle (sendMessageToAPI_resume (f_text (fetches s ! n)) (f_lang (fetches s ! n))
               (f_triedRetry (fetches s ! n)) resp
               (s\<lparr>fetches := (fetches s)[n := (fetches s ! n)\<lparr>f_settled := True\<rparr>]\<rparr>))"
  using assms by (simp add: Let_def)

lemma placeholder_no_latin: "\<not> regex_test LATIN_REGEX msg_no_reply"
  by (simp add: regex_test_def LATIN_REGEX_def msg_no_reply_def)

lemma relay_round_trip:
  assumes r1: "regex_test LATIN_REGEX r1" and r2: "truthy r2"
  shows "(let n = length (fetches s);
              s1 = settle (sendMessageToAPI t (lit ''kn'') False s);
              s2 = step (FetchDone n (Response True (Object (Some r1)))) s1;
              s3 = step (FetchDone (Suc n) (Response True (Object (Some r2)))) s2
          in s1 = s\<lparr>fetches := fetches s @ [call_of t (lit ''kn'') False]\<rparr> \<and>
             s2 = s\<lparr>fetches := fetches s @ [(call_of t (lit ''kn'') False)\<lparr>f_settled := True\<rparr>,
                                              call_of t (lit ''kn'') True]\<rparr> \<and>
             s3 = settle (speakOut r2 (lit ''kn'')
                    (bubble Bot r2
                       (s\<lparr>fetches := fetches s @
                            [(call_of t (lit ''kn'') False)\<lparr>f_settled := True\<rparr>,
                             (call_of t (lit ''kn'') True)\<lparr>f_settled := True\<rparr>]\<rparr>))))"
proof -
  define n where "n = length (fetches s)"
  define c0 where "c0 = call_of t (lit ''kn'') False"
  define c1 where "c1 = call_of t (lit ''kn'') True"
  define s1 where "s1 = settle (sendMessageToAPI t (lit ''kn'') False s)"
  define s2 where "s2 = step (FetchDone n (Response True (Object (Some r1)))) s1"
  define s3 where "s3 = step (FetchDone (Suc n) (Response True (Object (Some r2)))) s2"
  have c0: "f_text c0 = t" "f_lang c0 = lit ''kn''" "\<not> f_triedRetry c0" "\<not> f_settled c0"
    and c1: "f_text c1 = t" "f_lang c1 = lit ''kn''" "f_triedRetry c1" "\<not> f_settled c1"
    by (simp_all add: c0_def c1_def call_of_def)
  have e1: "s1 = s\<lparr>fetches := fetches s @ [c0]\<rparr>"
    by (simp add: s1_def sendMessageToAPI_issue c0_def)
  from r1 have t1: "truthy r1" by (auto simp: regex_test_def truthy_def)
  with r1 have sr: "should_retry (lit ''kn'') False (Response True (Object (Some r1)))"
    by (simp add: should_retry_def reply_or_placeholder_def)
  have f1: "n < length (fetches s1)" "fetches s1 ! n = c0"
    by (simp_all add: e1 n_def)
  have "s2 = settle (sendMessageToAPI_resume t (lit ''kn'') False (Response True (Object (Some r1)))
               (s1\<lparr>fetches := (fetches s1)[n := c0\<lparr>f_settled := True\<rparr>]\<rparr>))"
    unfolding s2_def using step_FetchDone [of n s1] f1 c0 by simp
  also have "\<dots> = s1\<lparr>fetches := (fetches s1)[n := c0\<lparr>f_settled := True\<rparr>] @ [c1]\<rparr>"
    by (simp add: resume_retry [OF sr] c1_def)
  also have "\<dots> = s\<lparr>fetches := fetches s @ [c0\<lparr>f_settled := True\<rparr>, c1]\<rparr>"
    by (simp add: e1 n_def)
  finally have e2: "s2 = s\<lparr>fetches := fetches s @ [c0\<lparr>f_settled := True\<rparr>, c1]\<rparr>" .
  have f2: "Suc n < length (fetches s2)" "fetches s2 ! Suc n = c1"
    by (simp_all add: e2 n_def nth_append)
  have nr: "\<not> should_retry (lit ''kn'') True (Response True (Object (Some r2)))"
    by (simp add: should_retry_def)
  have "s3 = settle (sendMessageToAPI_resume t (lit ''kn'') True (Response True (Object (Some r2)))
               (s2\<lparr>fetches := (fetches s2)[Suc n := c1\<lparr>f_settled := True\<rparr>]\<rparr>))"
    unfolding s3_def using step_FetchDone [of "Suc n" s2] f2 c1 by simp
  also have "\<dots> = settle (speakOut r2 (lit ''kn'')
               (bubble Bot r2 (s2\<lparr>fetches := (fetches s2)[Suc n := c1\<lparr>f_settled := True\<rparr>]\<rparr>)))"
    using r2 by (simp add: resume_accept [OF nr] reply_or_placeholder_def)
  also have "s2\<lparr>fetches := (fetches s2)[Suc n := c1\<lparr>f_settled := True\<rparr>]\<rparr> =
             s\<lparr>fetches := fetches s @ [c0\<lparr>f_settled := True\<rparr>, c1\<lparr>f_settled := True\<rparr>]\<rparr>"
    by (simp add: e2 n_def list_update_append)
  finally have e3: "s3 = settle (speakOut r2 (lit ''kn'')
     (bubble Bot r2 (s\<lparr>fetches := fetches s @ [c0\<lparr>f_settled := True\<rparr>, c1\<lparr>f_settled := True\<rparr>]\<rparr>)))" .
  from e1 e2 e3 show ?thesis
    unfolding Let_def s1_def s2_def s3_def n_def c0_def c1_def by blast
qed

text \<open>
  C2. When the awaited response arrives, \<^verbatim>\<open>sendMessageToAPI\<close> posts its request
  again exactly when the retry condition holds, and then does nothing else: the first
  reply is neither shown nor spoken. Otherwise no request is posted, and an accepted
  reply is shown and spoken. A call that is a retry never retries, and neither does a call
  in a locale other than \<^verbatim>\<open>"kn"\<close>. The retry posts the body of the original call. End
  to end, for a first reply with a Latin letter and any second reply: two requests in
  all, and the second reply alone is shown and spoken.
\<close>

theorem relay_retry_policy:
  "(should_retry lang tried resp \<longrightarrow>
      sendMessageToAPI_resume t lang tried resp s =
        Normal (s\<lparr>fetches := fetches s @ [call_of t lang True]\<rparr>)) \<and>
   (\<not> should_retry lang tried resp \<longrightarrow>
      fetches (settle (sendMessageToAPI_resume t lang tried resp s)) = fetches s) \<and>
   (\<not> should_retry lang tried (Response True (Object r)) \<longrightarrow>
      sendMessageToAPI_resume t lang tried (Response True (Object r)) s =
        speakOut (reply_or_placeholder r) lang (bubble Bot (reply_or_placeholder r) s)) \<and>
   \<not> should_retry lang True resp \<and>
   (lang \<noteq> lit ''kn'' \<longrightarrow> \<not> should_retry lang tried resp) \<and>
   sendMessageToAPI t lang tried s = Normal (s\<lparr>fetches := fetches s @ [call_of t lang tried]\<rparr>) \<and>
   f_request (call_of t lang True) = f_request (call_of t lang False) \<and>
   (regex_test LATIN_REGEX r1 \<and> truthy r2 \<longrightarrow>
      (let n = length (fetches s);
           s1 = settle (sendMessageToAPI t (lit ''kn'') False s);
           s2 = step (FetchDone n (Response True (Object (Some r1)))) s1;
           s3 = step (FetchDone (Suc n) (Response True (Object (Some r2)))) s2
       in s1 = s\<lparr>fetches := fetches s @ [call_of t (lit ''kn'') False]\<rparr> \<and>
          s2 = s\<lparr>fetches := fetches s @ [(call_of t (lit ''kn'') False)\<lparr>f_settled := True\<rparr>,
                                           call_of t (lit ''kn'') True]\<rparr> \<and>
          s3 = settle (speakOut r2 (lit ''kn'')
                 (bubble Bot r2
                    (s\<lparr>fetches := fetches s @
                         [(call_of t (lit ''kn'') False)\<lparr>f_settled := True\<rparr>,
                          (call_of t (lit ''kn'') True)\<lparr>f_settled := True\<rparr>]\<rparr>)))))"
proof -
  have a: "should_retry lang tried resp \<longrightarrow>
      sendMessageToAPI_resume t lang tried resp s =
        Normal (s\<lparr>fetches := fetches s @ [call_of t lang True]\<rparr>)"
    by (rule impI) (rule resume_retry)
  have b: "\<not> should_retry lang tried resp \<longrightarrow>
      fetches (settle (sendMessageToAPI_resume t lang tried resp s)) = fetches s"
    by (rule impI) (rule resume_no_retry_fetches)
  have c: "\<not> should_retry lang tried (Response True (Object r)) \<longrightarrow>
      sendMessageToAPI_resume t lang tried (Response True (Object r)) s =
        speakOut (reply_or_placeholder r) lang (bubble Bot (reply_or_placeholder r) s)"
    by (rule impI) (rule resume_accept)
  have d: "\<not> should_retry lang True resp"
    by (simp add: should_retry_def split: response.splits body.splits)
  have e: "lang \<noteq> lit ''kn'' \<longrightarrow> \<not> should_retry lang tried resp"
    by (simp add: should_retry_def split: response.splits body.splits)
  have f: "f_request (call_of t lang True) = f_request (call_of t lang False)"
    by (simp add: call_of_def)
  have g: "regex_test LATIN_REGEX r1 \<and> truthy r2 \<longrightarrow>
      (let n = length (fetches s);
           s1 = settle (sendMessageToAPI t (lit ''kn'') False s);
           s2 = step (FetchDone n (Response True (Object (Some r1)))) s1;
           s3 = step (FetchDone (Suc n) (Response True (Object (Some r2)))) s2
       in s1 = s\<lparr>fetches := fetches s @ [call_of t (lit ''kn'') False]\<rparr> \<and>
          s2 = s\<lparr>fetches := fetches s @ [(call_of t (lit ''kn'') False)\<lparr>f_settled := True\<rparr>,
                                           call_of t (lit ''kn'') True]\<rparr> \<and>
          s3 = settle (speakOut r2 (lit ''kn'')
                 (bubble Bot r2
                    (s\<lparr>fetches := fetches s @
                         [(call_of t (lit ''kn'') False)\<lparr>f_settled := True\<rparr>,
                          (call_of t (lit ''kn'') True)\<lparr>f_settled := True\<rparr>]\<rparr>))))"
    by (rule impI, erule conjE) (rule relay_round_trip)
  show ?thesis by (intro conjI a b c d e f g sendMessageToAPI_issue)
qed

lemmas relay_eval = speakOut_def stopSpeaking_def andThen_def bubble_def page_eq
  selectFemaleVoiceForLang_def call_of_def Let_def

theorem relay_retry_policy_witness:
  "area (step (FetchDone 1 (Response True (Object (Some namaskara))))
          (step (FetchDone 0 (Response True (Object (Some (lit ''Hello'')))))
             (settle (sendMessageToAPI namaskara (lit ''kn'') False page))))
     = Some [(Bot, namaskara)] \<and>
   map f_triedRetry (fetches (step (FetchDone 1 (Response True (Object (Some namaskara))))
          (step (FetchDone 0 (Response True (Object (Some (lit ''Hello'')))))
             (settle (sendMessageToAPI namaskara (lit ''kn'') False page)))))
     = [False, True]"
proof -
  have h: "regex_test LATIN_REGEX (lit ''Hello'') \<and> truthy namaskara"
    by (simp add: regex_test_def LATIN_REGEX_def lit_def truthy_def namaskara_def)
  have n: "length (fetches page) = 0" by (simp add: page_eq)
  note g = relay_retry_policy [where s = page and ?r1.0 = "lit ''Hello''" and ?r2.0 = namaskara
                                 and t = namaskara,
             THEN conjunct2, THEN conjunct2, THEN conjunct2, THEN conjunct2, THEN conjunct2,
             THEN conjunct2, THEN conjunct2, THEN mp, OF h]
  have e: "step (FetchDone 1 (Response True (Object (Some namaskara))))
          (step (FetchDone 0 (Response True (Object (Some (lit ''Hello'')))))
             (settle (sendMessageToAPI namaskara (lit ''kn'') False page)))
      = settle (speakOut namaskara (lit ''kn'')
                 (bubble Bot namaskara
                    (page\<lparr>fetches := fetches page @
                         [(call_of namaskara (lit ''kn'') False)\<lparr>f_settled := True\<rparr>,
                          (call_of namaskara (lit ''kn'') True)\<lparr>f_settled := True\<rparr>]\<rparr>)))"
    using g [unfolded Let_def n, THEN conjunct2, THEN conjunct2] by simp
  show ?thesis unfolding e by (simp add: relay_eval)
qed

text \<open>
  C6. On a response whose status is not a success, \<^verbatim>\<open>sendMessageToAPI\<close> appends
  the connection-error bubble with role bot to the message area and returns: the speech
  synthesis, \<open>isBotSpeaking\<close> and the list of requests stay as they were.
\<close>

theorem relay_non_success:
  "sendMessageToAPI_resume t lang tried (Response False b) s = Normal (bubble Bot msg_connection_error s) \<and>
   area (bubble Bot msg_connection_error s) =
     (case area s of None \<Rightarrow> None | Some ms \<Rightarrow> Some (ms @ [(Bot, msg_connection_error)])) \<and>
   speechSynthesis (bubble Bot msg_connection_error s) = speechSynthesis s \<and>
   isBotSpeaking (bubble Bot msg_connection_error s) = isBotSpeaking s \<and>
   fetches (bubble Bot msg_connection_error s) = fetches s \<and>
   \<not> should_retry lang tried (Response False b) \<and>
   (n < length (fetches s) \<and> \<not> f_settled (fetches s ! n) \<longrightarrow>
      step (FetchDone n (Response False b)) s =
        bubble Bot msg_connection_error
          (s\<lparr>fetches := (fetches s)[n := (fetches s ! n)\<lparr>f_settled := True\<rparr>]\<rparr>))"
proof -
  have a: "n < length (fetches s) \<and> \<not> f_settled (fetches s ! n) \<longrightarrow>
      step (FetchDone n (Response False b)) s =
        bubble Bot msg_connection_error
          (s\<lparr>fetches := (fetches s)[n := (fetches s ! n)\<lparr>f_settled := True\<rparr>]\<rparr>)"
    by (rule impI, erule conjE) (simp add: step_FetchDone resume_not_ok)
  have c: "\<not> should_retry lang tried (Response False b)"
    by (simp add: should_retry_def split: body.splits)
  have d: "area (bubble Bot msg_connection_error s) =
     (case area s of None \<Rightarrow> None | Some ms \<Rightarrow> Some (ms @ [(Bot, msg_connection_error)]))"
    by (simp add: bubble_def split: option.splits)
  show ?thesis
    by (intro conjI a c d resume_not_ok) (simp_all add: bubble_def)
qed

theorem relay_non_success_witness:
  "area (step (FetchDone 0 (Response False NoObject))
           (settle (sendMessageToAPI namaskara (lit ''kn'') False page)))
     = Some [(Bot, msg_connection_error)] \<and>
   length (fetches (step (FetchDone 0 (Response False NoObject))
           (settle (sendMessageToAPI namaskara (lit ''kn'') False page)))) = 1 \<and>
   speechSynthesis (step (FetchDone 0 (Response False NoObject))
           (settle (sendMessageToAPI namaskara (lit ''kn'') False page)))
     = Some \<lparr>voices = [], current = None, pending = []\<rparr>"
  using relay_non_success [of namaskara "lit ''kn''" False NoObject
          "settle (sendMessageToAPI namaskara (lit ''kn'') False page)" 0]
  by (simp add: sendMessageToAPI_issue bubble_def page_eq call_of_def)

section \<open>Properties of the chatbot's conversation context\<close>

lemma slice_last_short: "length xs \<le> n \<Longrightarrow> slice_last n xs = xs"
  by (simp add: slice_last_def)

lemma length_slice_last: "length (slice_last n xs) \<le> n"
  by (simp add: slice_last_def)

lemma set_slice_last: "set (slice_last n xs) \<subseteq> set xs"
  by (simp add: slice_last_def set_drop_subset)

lemma truthy_request_language: "truthy (request_language body)"
  by (simp add: request_language_def truthy_def lit_def split: option.splits)

lemma cb_chat_begin_rejected:
  assumes "\<not> truthy (case b_message body of None \<Rightarrow> [] | Some m \<Rightarrow> m) \<or> \<not> apiKey"
  shows "\<exists>c t. cb_chat_begin body apiKey tr ctx = (Answered (Http c t), ctx) \<and> c \<noteq> 200"
  using assms by (auto simp: cb_chat_begin_def Let_def)

lemma cb_chat_begin_accepted:
  assumes "truthy (case b_message body of None \<Rightarrow> [] | Some m \<Rightarrow> m)" "apiKey"
  shows "cb_chat_begin body apiKey tr ctx =
           (Awaiting (request_language body), kept_context body ctx @ [user_entry body apiKey tr])"
proof -
  have l: "(case b_language body of None \<Rightarrow> lit ''en'' | Some l \<Rightarrow> if truthy l then l else lit ''en'')
            = request_language body"
    by (simp add: request_language_def)
  show ?thesis
    unfolding cb_chat_begin_def Let_def l using assms
    by (simp add: kept_context_def user_entry_def Let_def)
qed

lemma cb_chat_finish_shape:
  "snd (cb_chat_finish l cm ctx) = ctx \<or>
   (\<exists>r. cb_chat_finish l cm ctx =
          (Http 200 r, slice_last 10 (ctx @ [\<lparr>e_role = AssistantRole, e_content = r, e_lang = l\<rparr>])))"
  by (auto simp: cb_chat_finish_def Let_def slice_last_short split: completion.splits option.splits)

lemma cb_chat_finish_reply:
  assumes "cb_chat_finish l cm ctx = (Http 200 r, ctx')"
  shows "ctx' = slice_last 10 (ctx @ [\<lparr>e_role = AssistantRole, e_content = r, e_lang = l\<rparr>]) \<and>
         length ctx' \<le> 10"
proof -
  from assms have "ctx' = slice_last 10 (ctx @ [\<lparr>e_role = AssistantRole, e_content = r, e_lang = l\<rparr>])"
    by (auto simp: cb_chat_finish_def Let_def slice_last_short
             split: completion.splits option.splits if_splits)
  then show ?thesis by (simp add: length_slice_last)
qed

lemma cb_chat_rejected:
  assumes "\<not> truthy (case b_message body of None \<Rightarrow> [] | Some m \<Rightarrow> m) \<or> \<not> apiKey"
  shows "snd (cb_chat body apiKey tr cm ctx) = ctx"
proof -
  from cb_chat_begin_rejected [OF assms] obtain c t where
    "cb_chat_begin body apiKey tr ctx = (Answered (Http c t), ctx)" by blast
  then show ?thesis by (simp add: cb_chat_def)
qed

lemma cb_chat_accepted:
  assumes "truthy (case b_message body of None \<Rightarrow> [] | Some m \<Rightarrow> m)" "apiKey"
  shows "cb_chat body apiKey tr cm ctx =
           cb_chat_finish (request_language body) cm
             (kept_context body ctx @ [user_entry body apiKey tr])"
  by (simp add: cb_chat_def cb_chat_begin_accepted [OF assms])

lemma cb_chat_shape:
  "snd (cb_chat body apiKey tr cm ctx) = ctx \<or>
   snd (cb_chat body apiKey tr cm ctx) = kept_context body ctx @ [user_entry body apiKey tr] \<or>
   (\<exists>r. snd (cb_chat body apiKey tr cm ctx) =
          slice_last 10 (kept_context body ctx @ [user_entry body apiKey tr, assistant_entry body r]))"
proof (cases "truthy (case b_message body of None \<Rightarrow> [] | Some m \<Rightarrow> m) \<and> apiKey")
  case False
  then show ?thesis using cb_chat_rejected [of body apiKey] by auto
next
  case True
  then have e: "cb_chat body apiKey tr cm ctx =
           cb_chat_finish (request_language body) cm
             (kept_context body ctx @ [user_entry body apiKey tr])"
    by (intro cb_chat_accepted) simp_all
  from cb_chat_finish_shape [of "request_language body" cm
         "kept_context body ctx @ [user_entry body apiKey tr]"]
  show ?thesis unfolding e by (auto simp: assistant_entry_def)
qed

lemma cb_chat_success:
  assumes "cb_chat body apiKey tr cm ctx = (Http 200 r, ctx')"
  shows "ctx' = slice_last 10 (kept_context body ctx @ [user_entry body apiKey tr, assistant_entry body r])"
proof (cases "truthy (case b_message body of None \<Rightarrow> [] | Some m \<Rightarrow> m) \<and> apiKey")
  case False
  then have "\<not> truthy (case b_message body of None \<Rightarrow> [] | Some m \<Rightarrow> m) \<or> \<not> apiKey"
    by simp
  from cb_chat_begin_rejected [OF this, of tr ctx] obtain c t where
    "cb_chat_begin body apiKey tr ctx = (Answered (Http c t), ctx)" "c \<noteq> 200" by blast
  with assms show ?thesis by (simp add: cb_chat_def)
next
  case True
  then have e: "cb_chat body apiKey tr cm ctx =
           cb_chat_finish (request_language body) cm
             (kept_context body ctx @ [user_entry body apiKey tr])"
    by (intro cb_chat_accepted) simp_all
  from cb_chat_finish_reply [OF assms [unfolded e]] show ?thesis
    by (simp add: assistant_entry_def)
qed

lemma events_of_one_request:
  "cbChatContext (server_step (Resolves (length (awaiting sv)) cm)
                    (server_step (Arrives body apiKey tr) sv))
     = snd (cb_chat body apiKey tr cm (cbChatContext sv))"
  by (cases "cb_chat_begin body apiKey tr (cbChatContext sv)")
     (auto simp: cb_chat_def split: begun.splits prod.splits)

lemma kept_context_tagged:
  assumes "truthy l" "\<forall>e\<in>set ctx. e_lang e = l"
  shows "\<forall>e\<in>set (kept_context body ctx). e_lang e = request_language body"
proof (cases "ctx = []")
  case True
  then show ?thesis by (simp add: kept_context_def)
next
  case False
  then have "ctx ! 0 \<in> set ctx" by simp
  with assms have h: "e_lang (ctx ! 0) = l" by blast
  show ?thesis
  proof (cases "l = request_language body")
    case True
    with assms h show ?thesis by (simp add: kept_context_def)
  next
    case nl: False
    with False h assms(1) show ?thesis by (simp add: kept_context_def)
  qed
qed

lemma serve_keeps_one_language:
  assumes "\<exists>l. truthy l \<and> (\<forall>e\<in>set ctx. e_lang e = l)"
  shows "\<exists>l. truthy l \<and> (\<forall>e\<in>set (serve c ctx). e_lang e = l)"
proof (cases c)
  case Clear
  then show ?thesis using truthy_request_language by auto
next
  case (Chat body apiKey tr cm)
  from assms obtain l where l: "truthy l" "\<forall>e\<in>set ctx. e_lang e = l" by blast
  note k = kept_context_tagged [OF l, of body]
  have u: "e_lang (user_entry body apiKey tr) = request_language body"
    and a: "\<And>r. e_lang (assistant_entry body r) = request_language body"
    by (simp_all add: user_entry_def assistant_entry_def)
  from cb_chat_shape [of body apiKey tr cm ctx]
  consider "serve c ctx = ctx"
    | "serve c ctx = kept_context body ctx @ [user_entry body apiKey tr]"
    | r where "serve c ctx = slice_last 10
                 (kept_context body ctx @ [user_entry body apiKey tr, assistant_entry body r])"
    using Chat by auto
  then show ?thesis
  proof cases
    case 1
    with assms show ?thesis by simp
  next
    case 2
    with k u have "\<forall>e\<in>set (serve c ctx). e_lang e = request_language body" by auto
    with truthy_request_language show ?thesis by blast
  next
    case 3
    have "\<forall>e\<in>set (kept_context body ctx @ [user_entry body apiKey tr, assistant_entry body r]).
            e_lang e = request_language body"
      using k u a by auto
    with set_slice_last [of 10 "kept_context body ctx @
                                  [user_entry body apiKey tr, assistant_entry body r]"] 3
    have "\<forall>e\<in>set (serve c ctx). e_lang e = request_language body" by auto
    with truthy_request_language show ?thesis by blast
  qed
qed

lemma serve_all_one_language_from:
  "\<exists>l. truthy l \<and> (\<forall>e\<in>set ctx. e_lang e = l) \<Longrightarrow>
   \<exists>l. truthy l \<and> (\<forall>e\<in>set (serve_all cs ctx). e_lang e = l)"
proof (induction cs arbitrary: ctx)
  case Nil
  then show ?case by simp
next
  case (Cons c cs)
  from Cons.IH [OF serve_keeps_one_language [OF Cons.prems]] show ?case by simp
qed

lemma serve_all_one_language:
  "\<exists>l. truthy l \<and> (\<forall>e\<in>set (serve_all cs []). e_lang e = l)"
  using serve_all_one_language_from [of "[]" cs] truthy_request_language by auto

text \<open>
  On the path that ends with a reply the context is cut: it is the last ten of what the
  request went on with followed by the two new entries.
\<close>

lemma window_after_reply:
  assumes "cb_chat body apiKey tr cm ctx = (Http 200 r, ctx')"
  shows "length ctx' \<le> 10 \<and>
         ctx' = slice_last 10
                  (kept_context body ctx @ [user_entry body apiKey tr, assistant_entry body r]) \<and>
         suffix ctx' (kept_context body ctx @ [user_entry body apiKey tr, assistant_entry body r]) \<and>
         (length ctx = 10 \<and> e_lang (ctx ! 0) = request_language body \<longrightarrow>
            ctx' = drop 2 ctx @ [user_entry body apiKey tr, assistant_entry body r])"
proof -
  note e = cb_chat_success [OF assms]
  have a: "length ctx' \<le> 10" unfolding e by (rule length_slice_last)
  have s: "suffix ctx' (kept_context body ctx @ [user_entry body apiKey tr, assistant_entry body r])"
    unfolding e slice_last_def by (rule suffix_drop)
  have d: "length ctx = 10 \<and> e_lang (ctx ! 0) = request_language body \<longrightarrow>
            ctx' = drop 2 ctx @ [user_entry body apiKey tr, assistant_entry body r]"
    unfolding e by (auto simp: kept_context_def slice_last_def)
  from a e s d show ?thesis by blast
qed

lemmas cb_eval = cb_chat_def cb_chat_begin_def cb_chat_finish_def translateToEnglish_def trim_def
  is_space_def truthy_def lit_def slice_last_def Let_def

lemma five_requests_fill_the_window:
  "serve_all [en_chat, en_chat, en_chat, en_chat, en_chat] [] = ten_en"
  by (simp add: en_chat_def cb_eval en_body_def ten_en_def en_pair_def)

text \<open>
  C7. The cut to ten entries is made only where the handler pushes the assistant's
  entry. From the context of ten entries that five answered requests leave, a request
  whose call to the model rejects, or resolves without content, is answered with 500
  and leaves eleven entries: the user's entry is pushed before the call, and both
  returns leave the handler before the cut.
\<close>

theorem failed_request_exceeds_cap:
  "serve_all [en_chat, en_chat, en_chat, en_chat, en_chat] [] = ten_en \<and>
   length ten_en = 10 \<and>
   cb_chat en_body True (Content (Some (lit ''hi''))) Fails ten_en
     = (Http 500 (lit ''Failed to connect to chatbot model.''),
        ten_en @ [\<lparr>e_role = UserRole, e_content = lit ''hi'', e_lang = lit ''en''\<rparr>]) \<and>
   cb_chat en_body True (Content (Some (lit ''hi''))) (Content None) ten_en
     = (Http 500 ([0x26A0, 0xFE0F] @ lit '' No response from model.''),
        ten_en @ [\<lparr>e_role = UserRole, e_content = lit ''hi'', e_lang = lit ''en''\<rparr>]) \<and>
   length (snd (cb_chat en_body True (Content (Some (lit ''hi''))) Fails ten_en)) = 11"
proof -
  have a: "cb_chat en_body True (Content (Some (lit ''hi''))) Fails ten_en
     = (Http 500 (lit ''Failed to connect to chatbot model.''),
        ten_en @ [\<lparr>e_role = UserRole, e_content = lit ''hi'', e_lang = lit ''en''\<rparr>])"
    by (simp add: cb_eval en_body_def ten_en_def en_pair_def)
  have b: "cb_chat en_body True (Content (Some (lit ''hi''))) (Content None) ten_en
     = (Http 500 ([0x26A0, 0xFE0F] @ lit '' No response from model.''),
        ten_en @ [\<lparr>e_role = UserRole, e_content = lit ''hi'', e_lang = lit ''en''\<rparr>])"
    by (simp add: cb_eval en_body_def ten_en_def en_pair_def)
  have c: "length ten_en = 10" by (simp add: ten_en_def en_pair_def)
  from a b c five_requests_fill_the_window show ?thesis by simp
qed

lemma first_en_request: "serve_all [en_chat] [] = en_pair"
  by (simp add: en_chat_def cb_eval en_body_def en_pair_def)

text \<open>
  C10, as stated, fails. A request in Kannada without a message is answered with 400
  and leaves the English entries of the context as they are. And of two overlapping
  requests, the English one is answered with its reply while the context holds the
  Kannada entry that arrived while it was suspended.
\<close>

theorem language_tags_can_differ:
  "serve_all [en_chat] [] = en_pair \<and>
   map e_lang en_pair = [lit ''en'', lit ''en''] \<and>
   request_language kn_empty_body = lit ''kn'' \<and>
   lit ''kn'' \<noteq> lit ''en'' \<and>
   cb_chat kn_empty_body True Fails Fails en_pair = (Http 400 (lit ''Message required''), en_pair) \<and>
   replies (server_run overlap server_start) = [Http 200 (lit ''hello'')] \<and>
   map e_lang (cbChatContext (server_run overlap server_start)) = [lit ''kn'', lit ''en'']"
proof -
  have a: "map e_lang en_pair = [lit ''en'', lit ''en'']" by (simp add: en_pair_def)
  have b: "request_language kn_empty_body = lit ''kn''"
    by (simp add: request_language_def kn_empty_body_def truthy_def lit_def)
  have c: "lit ''kn'' \<noteq> lit ''en''" by (simp add: lit_def)
  have d: "cb_chat kn_empty_body True Fails Fails en_pair
             = (Http 400 (lit ''Message required''), en_pair)"
    by (simp add: cb_eval kn_empty_body_def)
  have e: "replies (server_run overlap server_start) = [Http 200 (lit ''hello'')] \<and>
           map e_lang (cbChatContext (server_run overlap server_start)) = [lit ''kn'', lit ''en'']"
    by (simp add: overlap_def server_start_def cb_eval en_body_def kn_body_def namaskara_def)
  from first_en_request a b c d e show ?thesis by simp
qed

text \<open>
  C10, amended. In a server that has handled its requests one after the other since it
  started, a request that passes the two checks (a message, an API key) leaves only
  entries in its language, whether it is answered with a reply or with a model error;
  when the stored context's language differs, the context is emptied before the user's
  entry is pushed, so that after the push it holds that entry alone, and after a reply
  the request's two entries alone. A request that fails a check leaves the context as
  it was.
\<close>

theorem context_single_language:
  assumes "truthy (case b_message body of None \<Rightarrow> [] | Some m \<Rightarrow> m)" and "apiKey"
  shows "(\<forall>e\<in>set (snd (cb_chat body apiKey tr cm (serve_all calls []))).
            e_lang e = request_language body) \<and>
         (serve_all calls [] \<noteq> [] \<and> e_lang (serve_all calls [] ! 0) \<noteq> request_language body \<longrightarrow>
            snd (cb_chat_begin body apiKey tr (serve_all calls [])) = [user_entry body apiKey tr] \<and>
            (\<forall>r. fst (cb_chat body apiKey tr cm (serve_all calls [])) = Http 200 r \<longrightarrow>
                 snd (cb_chat body apiKey tr cm (serve_all calls []))
                   = [user_entry body apiKey tr, assistant_entry body r])) \<and>
         (\<not> (truthy (case b_message body' of None \<Rightarrow> [] | Some m \<Rightarrow> m) \<and> apiKey') \<longrightarrow>
            snd (cb_chat body' apiKey' tr' cm' ctx) = ctx)"
proof -
  define stored where "stored = serve_all calls []"
  from serve_all_one_language [of calls] obtain l where
    l: "truthy l" "\<forall>e\<in>set stored. e_lang e = l" unfolding stored_def by blast
  note k = kept_context_tagged [OF l, of body]
  have u: "e_lang (user_entry body apiKey tr) = request_language body"
    by (simp add: user_entry_def)
  note acc = cb_chat_accepted [OF assms, of tr cm stored]
  have a: "\<forall>e\<in>set (snd (cb_chat body apiKey tr cm stored)). e_lang e = request_language body"
  proof -
    from cb_chat_finish_shape [of "request_language body" cm
           "kept_context body stored @ [user_entry body apiKey tr]"]
    consider "snd (cb_chat body apiKey tr cm stored)
                = kept_context body stored @ [user_entry body apiKey tr]"
      | r where "snd (cb_chat body apiKey tr cm stored)
                = slice_last 10 ((kept_context body stored @ [user_entry body apiKey tr]) @
                    [\<lparr>e_role = AssistantRole, e_content = r, e_lang = request_language body\<rparr>])"
      unfolding acc by auto
    then show ?thesis
    proof cases
      case 1
      with k u show ?thesis by auto
    next
      case 2
      have "\<forall>e\<in>set ((kept_context body stored @ [user_entry body apiKey tr]) @
                    [\<lparr>e_role = AssistantRole, e_content = r, e_lang = request_language body\<rparr>]).
              e_lang e = request_language body"
        using k u by auto
      with set_slice_last [of 10 "(kept_context body stored @ [user_entry body apiKey tr]) @
                    [\<lparr>e_role = AssistantRole, e_content = r, e_lang = request_language body\<rparr>]"] 2
      show ?thesis by auto
    qed
  qed
  have b: "stored \<noteq> [] \<and> e_lang (stored ! 0) \<noteq> request_language body \<longrightarrow>
            snd (cb_chat_begin body apiKey tr stored) = [user_entry body apiKey tr] \<and>
            (\<forall>r. fst (cb_chat body apiKey tr cm stored) = Http 200 r \<longrightarrow>
                 snd (cb_chat body apiKey tr cm stored)
                   = [user_entry body apiKey tr, assistant_entry body r])"
  proof (intro impI, elim conjE)
    assume ne: "stored \<noteq> []" and nl: "e_lang (stored ! 0) \<noteq> request_language body"
    from ne have "stored ! 0 \<in> set stored" by simp
    with l have "truthy (e_lang (stored ! 0))" by auto
    with ne nl have kc: "kept_context body stored = []"
      by (simp add: kept_context_def)
    have b1: "snd (cb_chat_begin body apiKey tr stored) = [user_entry body apiKey tr]"
      by (simp add: cb_chat_begin_accepted [OF assms] kc)
    have b2: "\<forall>r. fst (cb_chat body apiKey tr cm stored) = Http 200 r \<longrightarrow>
                 snd (cb_chat body apiKey tr cm stored)
                   = [user_entry body apiKey tr, assistant_entry body r]"
    proof (intro allI impI)
      fix r assume "fst (cb_chat body apiKey tr cm stored) = Http 200 r"
      then have "cb_chat body apiKey tr cm stored = (Http 200 r, snd (cb_chat body apiKey tr cm stored))"
        by (metis prod.collapse)
      from cb_chat_success [OF this] kc
      show "snd (cb_chat body apiKey tr cm stored)
              = [user_entry body apiKey tr, assistant_entry body r]"
        by (simp add: slice_last_def)
    qed
    from b1 b2 show "snd (cb_chat_begin body apiKey tr stored) = [user_entry body apiKey tr] \<and>
            (\<forall>r. fst (cb_chat body apiKey tr cm stored) = Http 200 r \<longrightarrow>
                 snd (cb_chat body apiKey tr cm stored)
                   = [user_entry body apiKey tr, assistant_entry body r])" by blast
  qed
  have c: "\<not> (truthy (case b_message body' of None \<Rightarrow> [] | Some m \<Rightarrow> m) \<and> apiKey') \<longrightarrow>
            snd (cb_chat body' apiKey' tr' cm' ctx) = ctx"
    using cb_chat_rejected [of body' apiKey' tr' cm' ctx] by blast
  from a b c show ?thesis unfolding stored_def by blast
qed

theorem context_single_language_witness:
  "list_all (\<lambda>e. e_lang e = lit ''kn'')
     (snd (cb_chat kn_body True Fails (Content (Some namaskara)) (serve_all [en_chat] []))) \<and>
   snd (cb_chat_begin kn_body True Fails (serve_all [en_chat] []))
     = [user_entry kn_body True Fails] \<and>
   snd (cb_chat kn_body True Fails (Content (Some namaskara)) (serve_all [en_chat] []))
     = [user_entry kn_body True Fails, assistant_entry kn_body namaskara] \<and>
   snd (cb_chat kn_empty_body True Fails Fails en_pair) = en_pair"
proof -
  have h: "truthy (case b_message kn_body of None \<Rightarrow> [] | Some m \<Rightarrow> m)"
    by (simp add: kn_body_def truthy_def namaskara_def)
  have l: "request_language kn_body = lit ''kn''"
    by (simp add: request_language_def kn_body_def truthy_def lit_def)
  have n: "serve_all [en_chat] [] \<noteq> [] \<and>
           e_lang (serve_all [en_chat] [] ! 0) \<noteq> request_language kn_body"
    unfolding l first_en_request by (simp add: en_pair_def lit_def)
  have r: "\<not> (truthy (case b_message kn_empty_body of None \<Rightarrow> [] | Some m \<Rightarrow> m) \<and> True)"
    by (simp add: kn_empty_body_def truthy_def)
  have f: "fst (cb_chat kn_body True Fails (Content (Some namaskara)) (serve_all [en_chat] []))
             = Http 200 namaskara"
    unfolding first_en_request
    by (simp add: cb_eval kn_body_def en_pair_def namaskara_def)
  note t = context_single_language [OF h TrueI, of Fails "Content (Some namaskara)" "[en_chat]"
             kn_empty_body True Fails Fails en_pair]
  from t have "\<forall>e\<in>set (snd (cb_chat kn_body True Fails (Content (Some namaskara))
                              (serve_all [en_chat] []))). e_lang e = lit ''kn''"
    unfolding l by (rule conjunct1)
  then have a: "list_all (\<lambda>e. e_lang e = lit ''kn'')
     (snd (cb_chat kn_body True Fails (Content (Some namaskara)) (serve_all [en_chat] [])))"
    by (simp only: list_all_iff)
  from t n have b: "snd (cb_chat_begin kn_body True Fails (serve_all [en_chat] []))
     = [user_entry kn_body True Fails]" by blast
  from t n f have c: "snd (cb_chat kn_body True Fails (Content (Some namaskara))
                             (serve_all [en_chat] []))
     = [user_entry kn_body True Fails, assistant_entry kn_body namaskara]" by blast
  from t r have d: "snd (cb_chat kn_empty_body True Fails Fails en_pair) = en_pair" by blast
  from a b c d show ?thesis by (intro conjI)
qed


section \<open>Properties of the widget as a transition system\<close>

lemma quiet_refl: "quiet s s"
  by (simp add: quiet_def)

lemma quiet_trans: "quiet s s1 \<Longrightarrow> quiet s1 s2 \<Longrightarrow> quiet s s2"
  by (simp add: quiet_def)

lemma quiet_andThen:
  assumes "quiet s (settle m)" and "\<And>s1. quiet s1 (settle (f s1))"
  shows "quiet s (settle (andThen m f))"
proof (cases m)
  case (Normal s1)
  with assms(1) assms(2) [of s1] show ?thesis by (auto simp: andThen_def intro: quiet_trans)
next
  case (Thrown e s1)
  with assms(1) show ?thesis by (simp add: andThen_def)
qed

lemma quiet_try_catch:
  assumes "quiet s (settle m)" and "\<And>e s1. quiet s1 (settle (h e s1))"
  shows "quiet s (settle (try_catch m h))"
proof (cases m)
  case (Normal s1)
  with assms(1) show ?thesis by (simp add: try_catch_def)
next
  case (Thrown e s1)
  with assms(1) assms(2) [of s1 e] show ?thesis by (auto simp: try_catch_def intro: quiet_trans)
qed

lemma quiet_session_start: "quiet s (settle (session_start i s))"
  by (simp add: session_start_def upd_session_def quiet_def)

lemma quiet_session_stop: "quiet s (settle (session_stop i s))"
  by (simp add: session_stop_def upd_session_def quiet_def)

lemma quiet_on_recognition:
  assumes "\<And>i s. quiet s (settle (m i s))"
  shows "quiet s (settle (on_recognition m s))"
  using assms by (cases "recognition s") (simp_all add: on_recognition_def quiet_refl)

lemma quiet_saveLang: "quiet s (settle (saveLang l s))"
  by (simp add: saveLang_def try_catch_def localStorage_setItem_def quiet_def)

lemma quiet_addMessage: "quiet s (settle (addMessage r t s))"
  by (cases "area s") (simp_all add: addMessage_def quiet_def)

lemma quiet_clearChat: "quiet s (settle (clearChat s))"
  by (simp add: clearChat_def quiet_def)

lemma quiet_recreateRecognition: "quiet s (settle (recreateRecognition s))"
  by (cases "recognition s")
     (simp_all add: recreateRecognition_def andThen_def try_catch_def session_stop_def
                    upd_session_def quiet_def)

lemma quiet_initRecognition: "quiet s (settle (initRecognition s))"
  by (simp add: initRecognition_def quiet_def)

lemma quiet_startListening: "quiet s (settle (startListening s))"
  unfolding startListening_def
  by (intro quiet_andThen quiet_try_catch quiet_on_recognition quiet_session_start
            quiet_session_stop)
     (simp_all add: quiet_initRecognition quiet_refl)

lemma quiet_stopListening: "quiet s (settle (stopListening s))"
  by (cases "recognition s")
     (simp_all add: stopListening_def andThen_def try_catch_def session_stop_def
                    upd_session_def quiet_def)

lemma quiet_toggleListening: "quiet s (settle (toggleListening s))"
  unfolding toggleListening_def
  by (intro quiet_andThen)
     (simp_all add: quiet_initRecognition quiet_refl quiet_stopListening quiet_startListening)

lemma quiet_sendMessageToAPI: "quiet s (settle (sendMessageToAPI t lang tried s))"
  by (simp add: sendMessageToAPI_def try_catch_def Let_def quiet_def)

lemma quiet_stopSpeaking: "quiet s (settle (stopSpeaking s))"
  by (cases "speechSynthesis s") (simp_all add: stopSpeaking_def Let_def quiet_def)

lemma quiet_speakOut: "quiet s (settle (speakOut t lang s))"
  unfolding speakOut_def
  by (intro quiet_andThen quiet_stopSpeaking)
     (simp add: quiet_def Let_def split: option.splits)

lemma quiet_catch: "quiet s (settle (sendMessageToAPI_catch e s))"
  by (simp add: sendMessageToAPI_catch_def quiet_addMessage)

lemma quiet_resume: "quiet s (settle (sendMessageToAPI_resume t lang tried resp s))"
  unfolding sendMessageToAPI_resume_def
  by (intro quiet_try_catch quiet_catch)
     (auto simp: Let_def quiet_refl quiet_addMessage quiet_sendMessageToAPI
           intro!: quiet_andThen quiet_speakOut split: response.splits body.splits)

lemma quiet_onresult: "quiet s (settle (recognition_onresult t s))"
  unfolding recognition_onresult_def Let_def
  by (auto simp: quiet_refl quiet_saveLang quiet_addMessage quiet_sendMessageToAPI
           intro!: quiet_andThen)

lemma quiet_onerror: "quiet s (settle (recognition_onerror s))"
  by (simp add: recognition_onerror_def quiet_addMessage)

lemma quiet_onend: "quiet s (settle (recognition_onend s))"
  by (simp add: recognition_onend_def quiet_def)

lemma quiet_langBadge: "quiet s (settle (langBadge_onclick s))"
  unfolding langBadge_onclick_def Let_def
  by (intro quiet_andThen quiet_saveLang quiet_recreateRecognition)

lemma quiet_closeBtn: "quiet s (settle (closeBtn_onclick s))"
  unfolding closeBtn_onclick_def
  by (intro quiet_andThen quiet_stopListening quiet_stopSpeaking)

lemma quiet_createVoiceChatBox: "quiet s (settle (createVoiceChatBox s))"
proof -
  have "quiet s (s\<lparr>area := Some []\<rparr>)" by (simp add: quiet_def)
  from quiet_trans [OF this quiet_saveLang] show ?thesis
    by (simp add: createVoiceChatBox_def Let_def quiet_refl)
qed

lemma quiet_upd_session: "quiet s (upd_session i f s)"
  by (simp add: upd_session_def quiet_def)

lemma step_quiet:
  assumes "e \<noteq> UtterStart" "e \<noteq> UtterEnd" "\<forall>i. e \<noteq> RecStart i" "\<forall>n. e \<noteq> TimerFire n"
  shows "quiet s (step e s)"
proof (cases e)
  case DomContentLoaded
  then show ?thesis by (simp add: quiet_createVoiceChatBox)
next
  case ClickLangBadge
  then show ?thesis by (simp add: quiet_langBadge quiet_refl)
next
  case ClickClear
  then show ?thesis by (simp add: quiet_clearChat quiet_refl)
next
  case ClickClose
  then show ?thesis by (simp add: quiet_closeBtn quiet_refl)
next
  case ClickMic
  then show ?thesis by (simp add: quiet_toggleListening quiet_refl)
next
  case (RecStart i)
  with assms show ?thesis by simp
next
  case (RecResult i t)
  then show ?thesis by (simp add: quiet_onresult quiet_refl)
next
  case (RecError i)
  then show ?thesis by (simp add: quiet_onerror quiet_refl)
next
  case (RecEnd i)
  have "quiet s (settle (recognition_onend (upd_session i (\<lambda>r. r\<lparr>status := Idle\<rparr>) s)))"
    by (rule quiet_trans [OF quiet_upd_session quiet_onend])
  with RecEnd show ?thesis by (simp add: Let_def quiet_refl quiet_upd_session)
next
  case (FetchDone n resp)
  have "quiet s (s\<lparr>fetches := (fetches s)[n := (fetches s ! n)\<lparr>f_settled := True\<rparr>]\<rparr>)"
    by (simp add: quiet_def)
  from quiet_trans [OF this quiet_resume] FetchDone show ?thesis
    by (simp add: Let_def quiet_refl)
next
  case UtterStart
  with assms show ?thesis by simp
next
  case UtterEnd
  with assms show ?thesis by simp
next
  case (TimerFire n)
  with assms show ?thesis by simp
qed

lemma step_RecStart_flag:
  "wasListeningBeforeSpeak (step (RecStart i) s) = wasListeningBeforeSpeak s \<and>
   timers (step (RecStart i) s) = timers s"
  by (simp add: Let_def upd_session_def recognition_onstart_def)

lemma remove_nth_subseq: "subseq (take n xs @ drop (Suc n) xs) xs"
proof -
  have "drop n xs = take 1 (drop n xs) @ drop (Suc n) xs"
    by (metis append_take_drop_id drop_drop plus_1_eq_Suc)
  then have "suffix (drop (Suc n) xs) (drop n xs)"
    by (metis suffixI)
  then have "subseq (drop (Suc n) xs) (drop n xs)"
    by (rule suffix_imp_subseq)
  then have "subseq (take n xs @ drop (Suc n) xs) (take n xs @ drop n xs)"
    by (intro list_emb_append_mono) simp_all
  then show ?thesis by simp
qed

lemma step_TimerFire_flags:
  "wasListeningBeforeSpeak (step (TimerFire n) s) = wasListeningBeforeSpeak s \<and>
   (isListening (step (TimerFire n) s) \<longrightarrow> isListening s) \<and>
   subseq (timers (step (TimerFire n) s)) (timers s)"
proof (cases "n < length (timers s)")
  case True
  have q: "quiet (s\<lparr>timers := take n (timers s) @ drop (Suc n) (timers s)\<rparr>)
             (settle (startListening (s\<lparr>timers := take n (timers s) @ drop (Suc n) (timers s)\<rparr>)))"
    by (rule quiet_startListening)
  with True show ?thesis
    by (simp add: quiet_def remove_nth_subseq)
next
  case False
  then show ?thesis by simp
qed

lemma step_keeps_listening_off:
  assumes "\<forall>i. e \<noteq> RecStart i" "\<not> isListening s"
  shows "\<not> isListening (step e s)"
proof (cases "e = UtterStart \<or> e = UtterEnd \<or> (\<exists>n. e = TimerFire n)")
  case False
  with assms(1) have "quiet s (step e s)" by (intro step_quiet) auto
  with assms(2) show ?thesis by (simp add: quiet_def)
next
  case True
  then consider "e = UtterStart" | "e = UtterEnd" | n where "e = TimerFire n" by blast
  then show ?thesis
  proof cases
    case 1
    have "\<And>s'. \<not> isListening (settle (utter_onstart s'))"
      by (simp add: utter_onstart_def stopListening_def andThen_def try_catch_def session_stop_def
               split: option.splits)
    with 1 assms(2) show ?thesis by (simp split: option.splits list.splits)
  next
    case 2
    with assms(2) show ?thesis by (simp add: utter_onend_def Let_def split: option.splits)
  next
    case 3
    with assms(2) step_TimerFire_flags [of n s] show ?thesis by blast
  qed
qed

lemma run_keeps_listening_off:
  assumes "\<forall>e\<in>set es. \<forall>i. e \<noteq> RecStart i" "\<not> isListening s"
  shows "\<not> isListening (run es s)"
  using assms
proof (induction es arbitrary: s)
  case Nil
  then show ?case by simp
next
  case (Cons e es)
  from Cons.prems have "\<not> isListening (step e s)" by (intro step_keeps_listening_off) auto
  with Cons show ?case by simp
qed

lemma step_keeps_resume_flag:
  assumes "e \<noteq> UtterStart" "e \<noteq> UtterEnd"
  shows "wasListeningBeforeSpeak (step e s) = wasListeningBeforeSpeak s \<and>
         subseq (timers (step e s)) (timers s)"
proof (cases "(\<exists>i. e = RecStart i) \<or> (\<exists>n. e = TimerFire n)")
  case False
  with assms have "quiet s (step e s)" by (intro step_quiet) auto
  then show ?thesis by (simp add: quiet_def)
next
  case True
  then show ?thesis using step_RecStart_flag step_TimerFire_flags by auto
qed

lemma run_keeps_resume_flag:
  assumes "\<forall>e\<in>set es. e \<noteq> UtterStart \<and> e \<noteq> UtterEnd"
  shows "wasListeningBeforeSpeak (run es s) = wasListeningBeforeSpeak s \<and>
         subseq (timers (run es s)) (timers s)"
  using assms
proof (induction es arbitrary: s)
  case Nil
  then show ?case by simp
next
  case (Cons e es)
  from Cons.prems have a: "wasListeningBeforeSpeak (step e s) = wasListeningBeforeSpeak s \<and>
         subseq (timers (step e s)) (timers s)"
    by (intro step_keeps_resume_flag) auto
  from Cons.prems have "\<forall>e\<in>set es. e \<noteq> UtterStart \<and> e \<noteq> UtterEnd" by simp
  from Cons.IH [OF this, of "step e s"] a show ?case
    by (auto intro: subseq_order.trans)
qed

lemma utter_onstart_effect:
  "\<exists>s1. utter_onstart s = Normal s1 \<and> isBotSpeaking s1 \<and> \<not> isListening s1 \<and>
        wasListeningBeforeSpeak s1 = isListening s \<and> timers s1 = timers s"
  by (simp add: utter_onstart_def stopListening_def andThen_def try_catch_def session_stop_def
                upd_session_def split: option.splits)

lemma utter_onend_effect:
  "utter_onend s =
     Normal (s\<lparr>isBotSpeaking := False,
               timers := timers s @ (if wasListeningBeforeSpeak s then [200] else []),
               wasListeningBeforeSpeak := False\<rparr>)"
  by (simp add: utter_onend_def Let_def)

lemmas widget_eval = page_eq createVoiceChatBox_def getCurrentLang_def saveLang_def truthy_def
  try_catch_def andThen_def localStorage_setItem_def toggleListening_def initRecognition_def
  startListening_def stopListening_def on_recognition_def session_start_def session_stop_def
  upd_session_def recognition_onstart_def recognition_onresult_def recognition_onend_def
  recognition_onerror_def detectLangFromText_def regex_test_def KANNADA_REGEX_def
  LATIN_REGEX_def trim_def is_space_def addMessage_def sendMessageToAPI_def
  sendMessageToAPI_resume_def sendMessageToAPI_catch_def reply_or_placeholder_def speakOut_def
  stopSpeaking_def selectFemaleVoiceForLang_def utter_onstart_def utter_onend_def
  langBadge_onclick_def recreateRecognition_def lit_def Let_def

lemma listening_page_eq:
  "listening_page = page\<lparr>sessions := [\<lparr>slang = lit ''en-IN'', onstart_set = True,
       onresult_set = True, onerror_set = True, onend_set = True, status = Running\<rparr>],
     recognition := Some 0, isListening := True\<rparr>"
  by (simp add: listening_page_def widget_eval)

text \<open>
  C1, as stated, fails: \<open>isListening\<close> and \<open>isBotSpeaking\<close> are both true after the
  events of \<open>barge_in\<close>. Nothing in the script reads \<open>isBotSpeaking\<close>, so a click on
  the mic during playback starts recognition as at any other time.
\<close>

theorem both_flags_true_after_barge_in:
  "isListening (run barge_in page) \<and> isBotSpeaking (run barge_in page)"
  by (simp add: barge_in_def widget_eval)

text \<open>
  C1, amended. The \<^verbatim>\<open>onstart\<close> handler of an utterance returns normally from every
  state, sets \<open>isBotSpeaking\<close>, forces \<open>isListening\<close> off and records in
  \<open>wasListeningBeforeSpeak\<close> whether listening was on; and listening then stays off
  through every sequence of events that holds no \<^verbatim>\<open>start\<close> event of a recognition
  object, the one transition that turns it on.
\<close>

theorem speech_start_suspends_listening:
  assumes "\<forall>e\<in>set es. \<forall>i. e \<noteq> RecStart i"
  shows "\<exists>s1. utter_onstart s = Normal s1 \<and> isBotSpeaking s1 \<and> \<not> isListening s1 \<and>
              wasListeningBeforeSpeak s1 = isListening s \<and> \<not> isListening (run es s1)"
proof -
  from utter_onstart_effect [of s] obtain s1 where
    s1: "utter_onstart s = Normal s1" "isBotSpeaking s1" "\<not> isListening s1"
        "wasListeningBeforeSpeak s1 = isListening s" by blast
  from run_keeps_listening_off [OF assms s1(3)] s1 show ?thesis by blast
qed

theorem speech_start_suspends_listening_witness:
  "isListening listening_page \<and>
   (\<exists>s1. utter_onstart listening_page = Normal s1 \<and> isBotSpeaking s1 \<and> \<not> isListening s1 \<and>
         wasListeningBeforeSpeak s1 = isListening listening_page \<and>
         \<not> isListening (run [RecEnd 0, ClickMic, ClickClear] s1))"
proof -
  have a: "isListening listening_page" by (simp add: listening_page_eq)
  have b: "\<forall>e\<in>set [RecEnd 0, ClickMic, ClickClear]. \<forall>i. e \<noteq> RecStart i" by simp
  from speech_start_suspends_listening [OF b, of listening_page] a show ?thesis by blast
qed

text \<open>
  C4. From the \<^verbatim>\<open>onstart\<close> handler of an utterance, through any events other than
  the start or end of an utterance, to its \<^verbatim>\<open>onend\<close> handler: the start handler
  schedules nothing and leaves listening off; the resume flag keeps the value listening
  had before the start; no restart is scheduled in between (the pending timers only
  shrink); the end handler clears both flags and schedules one restart, after 200 ms,
  exactly when listening was on before the start, and starts nothing itself; when that
  timer fires, it is gone and \<^verbatim>\<open>startListening\<close> runs. A playback that starts
  without listening schedules nothing at its end.
\<close>

theorem resume_after_speech:
  assumes "\<forall>e\<in>set es. e \<noteq> UtterStart \<and> e \<noteq> UtterEnd"
  shows "(let s1 = settle (utter_onstart s); s2 = run es s1; s3 = settle (utter_onend s2) in
           \<not> isListening s1 \<and> timers s1 = timers s \<and>
           wasListeningBeforeSpeak s2 = isListening s \<and> subseq (timers s2) (timers s) \<and>
           s3 = s2\<lparr>isBotSpeaking := False,
                   timers := timers s2 @ (if isListening s then [200] else []),
                   wasListeningBeforeSpeak := False\<rparr> \<and>
           (isListening s \<longrightarrow>
              step (TimerFire (length (timers s2))) s3
                = settle (startListening (s3\<lparr>timers := timers s2\<rparr>)))) \<and>
         (\<not> isListening s' \<longrightarrow>
            timers (settle (utter_onend (settle (utter_onstart s')))) = timers s')"
proof -
  define s1 where "s1 = settle (utter_onstart s)"
  define s2 where "s2 = run es s1"
  define s3 where "s3 = settle (utter_onend s2)"
  from utter_onstart_effect [of s] have a: "\<not> isListening s1" "timers s1 = timers s"
    "wasListeningBeforeSpeak s1 = isListening s"
    by (auto simp: s1_def)
  from run_keeps_resume_flag [OF assms, of s1] a
  have b: "wasListeningBeforeSpeak s2 = isListening s" "subseq (timers s2) (timers s)"
    by (simp_all add: s2_def)
  have c: "s3 = s2\<lparr>isBotSpeaking := False,
                   timers := timers s2 @ (if isListening s then [200] else []),
                   wasListeningBeforeSpeak := False\<rparr>"
    by (simp add: s3_def utter_onend_effect b)
  have d: "isListening s \<longrightarrow>
              step (TimerFire (length (timers s2))) s3
                = settle (startListening (s3\<lparr>timers := timers s2\<rparr>))"
    by (simp add: c)
  have e: "\<not> isListening s' \<longrightarrow>
            timers (settle (utter_onend (settle (utter_onstart s')))) = timers s'"
  proof
    assume n: "\<not> isListening s'"
    from utter_onstart_effect [of s'] obtain t1 where
      t1: "utter_onstart s' = Normal t1" "wasListeningBeforeSpeak t1 = isListening s'"
          "timers t1 = timers s'" by blast
    with n show "timers (settle (utter_onend (settle (utter_onstart s')))) = timers s'"
      by (simp add: utter_onend_effect)
  qed
  from a b c d e show ?thesis
    unfolding Let_def s1_def [symmetric] s2_def [symmetric] s3_def [symmetric] by blast
qed

theorem resume_after_speech_witness:
  "timers (settle (utter_onend (run [RecEnd 0] (settle (utter_onstart listening_page))))) = [200] \<and>
   \<not> isListening (settle (utter_onend (run [RecEnd 0] (settle (utter_onstart listening_page))))) \<and>
   \<not> wasListeningBeforeSpeak
       (settle (utter_onend (run [RecEnd 0] (settle (utter_onstart listening_page))))) \<and>
   timers (run [TimerFire 0, RecStart 0]
       (settle (utter_onend (run [RecEnd 0] (settle (utter_onstart listening_page)))))) = [] \<and>
   isListening (run [TimerFire 0, RecStart 0]
       (settle (utter_onend (run [RecEnd 0] (settle (utter_onstart listening_page))))))"
proof -
  have h: "\<forall>e\<in>set [RecEnd 0]. e \<noteq> UtterStart \<and> e \<noteq> UtterEnd" by simp
  have l: "isListening listening_page" by (simp add: listening_page_eq)
  have s2: "run [RecEnd 0] (settle (utter_onstart listening_page))
              = page\<lparr>sessions := [\<lparr>slang = lit ''en-IN'', onstart_set = True,
                         onresult_set = True, onerror_set = True, onend_set = True,
                         status = Idle\<rparr>],
                      recognition := Some 0, isBotSpeaking := True,
                      wasListeningBeforeSpeak := True\<rparr>"
    by (simp add: listening_page_eq widget_eval)
  note t = resume_after_speech [OF h, of listening_page, unfolded Let_def, THEN conjunct1]
  from t l have s3: "settle (utter_onend (run [RecEnd 0] (settle (utter_onstart listening_page))))
      = (run [RecEnd 0] (settle (utter_onstart listening_page)))
          \<lparr>isBotSpeaking := False,
            timers := timers (run [RecEnd 0] (settle (utter_onstart listening_page))) @ [200],
            wasListeningBeforeSpeak := False\<rparr>"
    by simp
  show ?thesis by (simp only: s3, simp only: s2) (simp add: widget_eval)
qed

text \<open>
  C5. After the events of \<open>toggle_while_listening\<close> the global \<open>recognition\<close> is
  null, the language is \<^verbatim>\<open>"kn"\<close> and the old object, told to stop, still has its
  \<^verbatim>\<open>onresult\<close> handler: its late \<^verbatim>\<open>result\<close> event appends the transcript as a
  user bubble, posts it to the backend and sets the language back to \<^verbatim>\<open>"en"\<close>.
\<close>

theorem stale_result_is_acted_upon:
  "recognition (run toggle_while_listening page) = None \<and>
   currentLang (run toggle_while_listening page) = Some (lit ''kn'') \<and>
   map status (sessions (run toggle_while_listening page)) = [Stopping] \<and>
   area (run toggle_while_listening page) = Some [] \<and>
   fetches (run toggle_while_listening page) = [] \<and>
   area (step (RecResult 0 (lit ''hello'')) (run toggle_while_listening page))
     = Some [(User, lit ''hello'')] \<and>
   fetches (step (RecResult 0 (lit ''hello'')) (run toggle_while_listening page))
     = [call_of (lit ''hello'') (lit ''en'') False] \<and>
   currentLang (step (RecResult 0 (lit ''hello'')) (run toggle_while_listening page))
     = Some (lit ''en'')"
  by (simp add: toggle_while_listening_def widget_eval call_of_def)

text \<open>
  What the toggle does achieve: the \<^verbatim>\<open>error\<close> and \<^verbatim>\<open>end\<close> events of the old
  object run no handler, and the next \<^verbatim>\<open>startListening\<close> creates a new object in
  the new language.
\<close>

lemma toggle_detaches_end_and_error:
  assumes "recognition s = Some i" "i < length (sessions s)" "area s \<noteq> None"
  shows "recognition (step ClickLangBadge s) = None \<and>
         \<not> onend_set (sessions (step ClickLangBadge s) ! i) \<and>
         \<not> onerror_set (sessions (step ClickLangBadge s) ! i) \<and>
         onresult_set (sessions (step ClickLangBadge s) ! i) = onresult_set (sessions s ! i) \<and>
         step (RecError i) (step ClickLangBadge s) = step ClickLangBadge s \<and>
         step (RecEnd i) (step ClickLangBadge s)
           = (if status (sessions (step ClickLangBadge s) ! i) = Idle then step ClickLangBadge s
              else upd_session i (\<lambda>r. r\<lparr>status := Idle\<rparr>) (step ClickLangBadge s))"
proof -
  define l where "l = (if getCurrentLang s = lit ''kn'' then lit ''en'' else lit ''kn'')"
  have t: "truthy l" by (simp add: l_def truthy_def lit_def)
  obtain s0 where s0: "saveLang l s = Normal s0" "recognition s0 = recognition s"
    "sessions s0 = sessions s"
    using t by (cases "storageFails s")
      (simp_all add: saveLang_def try_catch_def localStorage_setItem_def)
  have e: "step ClickLangBadge s = settle (recreateRecognition s0)"
    using assms(3) s0 by (auto simp: langBadge_onclick_def Let_def l_def [symmetric] andThen_def)
  show ?thesis unfolding e using assms(1,2) s0
    by (simp add: recreateRecognition_def andThen_def try_catch_def session_stop_def
                  upd_session_def Let_def)
qed

lemma recreateRecognition_effect:
  "\<exists>s1. recreateRecognition s = Normal s1 \<and> recognition s1 = None \<and>
        length (sessions s1) = length (sessions s) \<and> currentLang s1 = currentLang s \<and>
        storedLang s1 = storedLang s \<and> srSupported s1 = srSupported s"
  by (cases "recognition s")
     (simp_all add: recreateRecognition_def andThen_def try_catch_def session_stop_def
                    upd_session_def)

lemma saveLang_effect:
  "truthy l \<Longrightarrow>
   \<exists>s1. saveLang l s = Normal s1 \<and> recognition s1 = recognition s \<and>
        sessions s1 = sessions s \<and> currentLang s1 = Some l \<and> srSupported s1 = srSupported s"
  by (cases "storageFails s")
     (simp_all add: saveLang_def try_catch_def localStorage_setItem_def)

lemma toggle_then_start_is_fresh:
  assumes "area s \<noteq> None" "srSupported s"
  shows "recognition (settle (startListening (step ClickLangBadge s)))
           = Some (length (sessions s)) \<and>
         sessions (settle (startListening (step ClickLangBadge s))) ! length (sessions s)
           = \<lparr>slang = (if getCurrentLang s = lit ''kn'' then lit ''en-IN'' else lit ''kn-IN''),
              onstart_set = True, onresult_set = True, onerror_set = True, onend_set = True,
              status = Starting\<rparr>"
proof -
  define l where "l = (if getCurrentLang s = lit ''kn'' then lit ''en'' else lit ''kn'')"
  have t: "truthy l" by (simp add: l_def truthy_def lit_def)
  from saveLang_effect [OF t, of s] obtain s0 where s0: "saveLang l s = Normal s0"
    "sessions s0 = sessions s" "currentLang s0 = Some l" "srSupported s0 = srSupported s"
    by blast
  from recreateRecognition_effect [of s0] obtain s1 where
    s1: "recreateRecognition s0 = Normal s1" "recognition s1 = None"
    "length (sessions s1) = length (sessions s0)" "currentLang s1 = currentLang s0"
    "srSupported s1 = srSupported s0"
    by blast
  have e: "step ClickLangBadge s = s1"
    using assms(1) s0 s1 by (auto simp: langBadge_onclick_def Let_def l_def [symmetric] andThen_def)
  have g: "getCurrentLang s1 = l" using s0 s1 t by (simp add: getCurrentLang_def)
  have k: "(l = lit ''kn'') = (getCurrentLang s \<noteq> lit ''kn'')"
    by (simp add: l_def lit_def)
  show ?thesis unfolding e using s0 s1 g k assms(2)
    by (simp add: startListening_def initRecognition_def andThen_def try_catch_def
                  on_recognition_def session_start_def upd_session_def nth_append)
qed

end
